theory Spec2Isabelle
  imports Complex_Main
begin

section \<open>JavaScript strings\<close>

text \<open>
  Strings are lists of characters. \<open>toLowerCase\<close> maps the letters A to Z to a to z and
  leaves every other character alone, which is what the JavaScript method does on the
  characters that matter here: no character outside ASCII is lowered to one of the letters
  or to the dot of the suffixes and extensions the controls compare with.
\<close>

definition toLowerChar :: "char \<Rightarrow> char" where
  "toLowerChar c =
     (case map_of (zip ''ABCDEFGHIJKLMNOPQRSTUVWXYZ'' ''abcdefghijklmnopqrstuvwxyz'') c of
        None \<Rightarrow> c
      | Some l \<Rightarrow> l)"

definition toLowerCase :: "string \<Rightarrow> string" where
  "toLowerCase s = map toLowerChar s"

definition endsWith :: "string \<Rightarrow> string \<Rightarrow> bool" where
  "endsWith s suffix =
     (length suffix \<le> length s \<and> drop (length s - length suffix) s = suffix)"

definition startsWith :: "string \<Rightarrow> string \<Rightarrow> bool" where
  "startsWith s p = (take (length p) s = p)"

text \<open>
  \<open>s.lastIndexOf(c)\<close>: the index of the last occurrence of \<open>c\<close>, or \<open>-1\<close>. The scan runs
  from the left and remembers the latest index at which \<open>c\<close> stood.
\<close>

fun lastIndexOfFrom :: "string \<Rightarrow> char \<Rightarrow> nat \<Rightarrow> int \<Rightarrow> int" where
  "lastIndexOfFrom [] c i found = found"
| "lastIndexOfFrom (x # xs) c i found =
     lastIndexOfFrom xs c (Suc i) (if x = c then int i else found)"

definition lastIndexOf :: "string \<Rightarrow> char \<Rightarrow> int" where
  "lastIndexOf s c = lastIndexOfFrom s c 0 (- 1)"

text \<open>\<open>s.substring(i)\<close> for an index \<open>i\<close> that is not negative.\<close>

definition substring :: "string \<Rightarrow> int \<Rightarrow> string" where
  "substring s i = drop (nat i) s"

section \<open>The host platform and the libraries, as values\<close>

text \<open>
  A thrown JavaScript error, with the \<open>status\<close> property that \<open>downloadFile\<close> attaches to
  the error of a failed HTTP request (absent on every other error).
\<close>

datatype error = Error (errMessage: string) (errStatus: "int option")

text \<open>
  The record that \<open>webAPI.retrieveRecord\<close> returns, read at the file column and at the
  \<open>_name\<close> column. \<open>None\<close> is a missing or null property.
\<close>

record dv_record =
  fileRef :: "string option"
  fileNameColumn :: "string option"

text \<open>
  The answer of \<open>fetch\<close>: \<open>response.ok\<close>, \<open>response.status\<close>, and what
  \<open>atob((await response.json()).value)\<close> gives, the decoded byte string or the error
  thrown on the way.
\<close>

record response =
  responseOk :: bool
  responseStatus :: int
  responseBytes :: "error + string"

text \<open>
  A document of pdf.js: its \<open>numPages\<close>, and for each page number what \<open>getPage\<close> gives;
  a page says whether \<open>page.render(...).promise\<close> rejects.
\<close>

datatype pdf_page = Page (renderError: "error option")

record pdf_document =
  numPages :: nat
  getPage :: "nat \<Rightarrow> error + pdf_page"

text \<open>
  Everything outside the control that one top-level operation consults. The two calls of
  \<open>retrieveRecord\<close> (in \<open>hasPreviewableAttachment\<close> and in \<open>downloadFile\<close>) have answers
  of their own. \<open>workerResource\<close> is the outcome of \<open>resources.getResource\<close>: \<open>None\<close> when
  the failure callback runs, otherwise what \<open>atob(data)\<close> gives. \<open>imageReader\<close> is the
  data URL that the \<open>FileReader\<close> loads, \<open>None\<close> when its \<open>onerror\<close> fires;
  \<open>docxRender\<close> is the error with which \<open>renderAsync\<close> of docx-preview rejects, if it does.
\<close>

record world =
  checkRecord :: "error + dv_record"
  downloadRecord :: "error + dv_record"
  fetchResponse :: "error + response"
  workerResource :: "(error + string) option"
  pdfDocument :: "error + pdf_document"
  imageReader :: "string option"
  docxRender :: "error option"

text \<open>The part of the host's context the controls read.\<close>

record pcf_context =
  entityId :: "string option"
  entityLogicalName :: "string option"
  fileColumnName :: "string option"
  enableDownload :: bool

text \<open>\<open>!v\<close> for a value that is a string, null or undefined.\<close>

definition falsy :: "string option \<Rightarrow> bool" where
  "falsy v = (case v of None \<Rightarrow> True | Some s \<Rightarrow> s = [])"

section \<open>Supported types and the attachment check\<close>

definition supportedExtensions :: "string list" where
  "supportedExtensions = [''pdf'', ''doc'', ''docx'', ''png'', ''jpg'', ''jpeg'', ''gif'']"

definition supportedMimeTypes :: "string list" where
  "supportedMimeTypes =
     [''application/pdf'',
      ''application/msword'',
      ''application/vnd.openxmlformats-officedocument.wordprocessingml.document'',
      ''image/png'',
      ''image/jpeg'',
      ''image/gif'']"

text \<open>
  \<open>hasPreviewableAttachment\<close>, the same text in both controls. Its argument is the outcome
  of the awaited \<open>retrieveRecord\<close>; a rejection is rethrown.
\<close>

definition hasPreviewableAttachment :: "error + dv_record \<Rightarrow> error + bool" where
  "hasPreviewableAttachment retrieved =
     (case retrieved of
        Inl err \<Rightarrow> Inl err
      | Inr record \<Rightarrow>
          if falsy (fileRef record) then Inr False
          else
            let fileName = (case fileNameColumn record of None \<Rightarrow> [] | Some n \<Rightarrow> n) in
            if fileName = [] then Inr True
            else
              let dot = lastIndexOf fileName CHR ''.'' in
              if dot \<le> 0 \<or> dot = int (length fileName) - 1 then Inr False
              else Inr (toLowerCase (substring fileName (dot + 1)) \<in> set supportedExtensions))"

section \<open>Downloading the file\<close>

record preview_file =
  blob :: "nat list"
  fileName :: string
  mimeType :: string

text \<open>The chain of suffix tests at the end of \<open>downloadFile\<close>, on the lowered name.\<close>

definition mimeTypeOfLowerName :: "string \<Rightarrow> string" where
  "mimeTypeOfLowerName lowerName =
     (if endsWith lowerName ''.pdf'' then ''application/pdf''
      else if endsWith lowerName ''.docx'' then
        ''application/vnd.openxmlformats-officedocument.wordprocessingml.document''
      else if endsWith lowerName ''.doc'' then ''application/msword''
      else if endsWith lowerName ''.png'' then ''image/png''
      else if endsWith lowerName ''.jpg'' \<or> endsWith lowerName ''.jpeg'' then ''image/jpeg''
      else if endsWith lowerName ''.gif'' then ''image/gif''
      else ''application/octet-stream'')"

text \<open>The suffixes that the chain tests.\<close>

definition knownSuffixes :: "string list" where
  "knownSuffixes = [''.pdf'', ''.docx'', ''.doc'', ''.png'', ''.jpg'', ''.jpeg'', ''.gif'']"

text \<open>
  \<open>downloadFile\<close>, the same in both controls: the record's name (or \<open>document\<close>), the
  request, the error with the HTTP status when the response is not ok, the bytes, and the
  MIME type from the name. The download link that the method also stores
  (\<open>currentDownloadUrl\<close>) plays no part in what follows and is left out.
\<close>

definition downloadFile :: "world \<Rightarrow> error + preview_file" where
  "downloadFile w =
     (case downloadRecord w of
        Inl err \<Rightarrow> Inl err
      | Inr record \<Rightarrow>
          let fileName =
                (case fileNameColumn record of
                   None \<Rightarrow> ''document''
                 | Some n \<Rightarrow> if n = [] then ''document'' else n)
          in
          (case fetchResponse w of
             Inl err \<Rightarrow> Inl err
           | Inr resp \<Rightarrow>
               if \<not> responseOk resp then
                 Inl (Error ''Error retrieving file'' (Some (responseStatus resp)))
               else
                 (case responseBytes resp of
                    Inl err \<Rightarrow> Inl err
                  | Inr byteString \<Rightarrow>
                      let lowerName = toLowerCase fileName in
                      Inr \<lparr>blob = map of_char byteString,
                           fileName = fileName,
                           mimeType = mimeTypeOfLowerName lowerName\<rparr>)))"

section \<open>The rendering dispatcher\<close>

text \<open>
  \<open>renderFilePreview\<close> is a chain of \<open>if (...) { ...; return; }\<close> blocks with a final
  block; \<open>renderBranch\<close> is the chain of their conditions, in the order of the source.
\<close>

datatype branch = PdfBranch | ImageBranch | DocxBranch | LegacyDocBranch | FallbackBranch

definition renderBranch :: "preview_file \<Rightarrow> branch" where
  "renderBranch file =
     (let lower = toLowerCase (fileName file);
          mime = toLowerCase (mimeType file)
      in
      if mime = ''application/pdf'' \<or> endsWith lower ''.pdf'' then PdfBranch
      else if startsWith mime ''image/'' then ImageBranch
      else if endsWith lower ''.docx'' then DocxBranch
      else if endsWith lower ''.doc'' then LegacyDocBranch
      else FallbackBranch)"

section \<open>What is rendered\<close>

text \<open>
  The children of the zoom wrapper. A canvas records the pages drawn on it; the word
  container says whether docx-preview has filled it; the legacy notice is the
  informational block with its button. Styles and sizes are not modelled.
\<close>

datatype canvas = Canvas (drawn: "nat list")

datatype node =
    InfoBlock string
  | PageContainer canvas
  | ImageContainer string
  | WordContainer bool
  | LegacyDocContainer string string

record wrapper =
  transform :: "real option"
  children :: "node list"

definition couldNotRenderPdf :: string where
  "couldNotRenderPdf =
     ''Could not render PDF preview. You can still use the Download button to open the file.''"

definition couldNotRenderImage :: string where
  "couldNotRenderImage =
     ''Could not render image preview. You can still use the Download button to open the file.''"

definition legacyDocMessage :: string where
  "legacyDocMessage =
     ''This file is a legacy .doc format which cannot be rendered inline. Click the button below to open it in a new tab.''"

definition notAvailableMessage :: "preview_file \<Rightarrow> string" where
  "notAvailableMessage file =
     ''Preview is not available for this file type ('' @ mimeType file @ '').''"

text \<open>
  The page loop \<open>for (pageNum = 1; pageNum <= numPages; pageNum++)\<close>: fetch the page,
  create a canvas, append its container, render the page on the canvas. A rejected
  \<open>getPage\<close> or \<open>render\<close> leaves the loop with the error.
\<close>

function renderPages ::
  "pdf_document \<Rightarrow> nat \<Rightarrow> nat \<Rightarrow> node list \<Rightarrow> error option \<times> node list" where
  "renderPages pdf pageNum n cs =
     (if pageNum \<le> n then
        (case getPage pdf pageNum of
           Inl err \<Rightarrow> (Some err, cs)
         | Inr page \<Rightarrow>
             (case renderError page of
                Some err \<Rightarrow> (Some err, cs @ [PageContainer (Canvas [])])
              | None \<Rightarrow>
                  renderPages pdf (Suc pageNum) n (cs @ [PageContainer (Canvas [pageNum])])))
      else (None, cs))"
  by pat_completeness auto
termination
  by (relation "measure (\<lambda>(pdf, pageNum, n, cs). Suc n - pageNum)") auto

declare renderPages.simps [simp del]

text \<open>
  The \<open>try\<close> and \<open>catch\<close> of the PDF block, from \<open>getDocument\<close> on: the pages, or the
  one informational block when anything in the block threw.
\<close>

definition pdfBlock :: "world \<Rightarrow> node list" where
  "pdfBlock w =
     (case pdfDocument w of
        Inl err \<Rightarrow> [InfoBlock couldNotRenderPdf]
      | Inr pdf \<Rightarrow>
          (case renderPages pdf 1 (numPages pdf) [] of
             (Some err, cs) \<Rightarrow> [InfoBlock couldNotRenderPdf]
           | (None, cs) \<Rightarrow> cs))"

text \<open>The image block, once the reader's \<open>onload\<close> or \<open>onerror\<close> has run.\<close>

definition imageBlock :: "world \<Rightarrow> node list" where
  "imageBlock w =
     (case imageReader w of
        Some dataUrl \<Rightarrow> [ImageContainer dataUrl]
      | None \<Rightarrow> [InfoBlock couldNotRenderImage])"

section \<open>Object URLs\<close>

text \<open>
  The browser's object URLs are numbered. The log lists every \<open>URL.createObjectURL\<close> and
  \<open>URL.revokeObjectURL\<close> of the control, the latest first, so that each tail of the log
  is a moment of the past; the kind names the call site (the previewed file, or the pdf.js
  worker of the inline control).
\<close>

datatype url_kind = FileUrl | WorkerUrl

datatype url_event = Created url_kind nat | Revoked nat

fun liveUrls :: "url_event list \<Rightarrow> (url_kind \<times> nat) list" where
  "liveUrls [] = []"
| "liveUrls (Created k u # older) = (k, u) # liveUrls older"
| "liveUrls (Revoked u # older) = filter (\<lambda>p. snd p \<noteq> u) (liveUrls older)"

definition liveCount :: "url_kind \<Rightarrow> url_event list \<Rightarrow> nat" where
  "liveCount k events = length (filter (\<lambda>p. fst p = k) (liveUrls events))"

fun atMostOneLive :: "url_event list \<Rightarrow> bool" where
  "atMostOneLive [] = True"
| "atMostOneLive (e # older) =
     (liveCount FileUrl (e # older) \<le> 1 \<and> liveCount WorkerUrl (e # older) \<le> 1 \<and>
      atMostOneLive older)"

section \<open>The state both controls share\<close>

record control =
  ctx :: pcf_context
  zoomLevel :: real
  currentFileUrl :: "nat option"
  currentFileName :: "string option"
  currentMimeType :: "string option"
  urlLog :: "url_event list"
  nextUrl :: nat

definition createObjectURL :: "url_kind \<Rightarrow> 'a control_scheme \<Rightarrow> nat \<times> 'a control_scheme" where
  "createObjectURL k s =
     (nextUrl s, s\<lparr>urlLog := Created k (nextUrl s) # urlLog s, nextUrl := Suc (nextUrl s)\<rparr>)"

definition revokeObjectURL :: "nat \<Rightarrow> 'a control_scheme \<Rightarrow> 'a control_scheme" where
  "revokeObjectURL u s = s\<lparr>urlLog := Revoked u # urlLog s\<rparr>"

definition cleanupFileUrl :: "'a control_scheme \<Rightarrow> 'a control_scheme" where
  "cleanupFileUrl s =
     (case currentFileUrl s of
        None \<Rightarrow> s
      | Some u \<Rightarrow> (revokeObjectURL u s)\<lparr>currentFileUrl := None\<rparr>)"

text \<open>\<open>this.currentFileName || "Document preview"\<close>\<close>

definition titleOf :: "string option \<Rightarrow> string" where
  "titleOf n = (case n of None \<Rightarrow> ''Document preview'' | Some t \<Rightarrow> if t = [] then ''Document preview'' else t)"

definition permissionDenied :: string where
  "permissionDenied = ''You do not have permission to view this document.''"

definition genericFailure :: string where
  "genericFailure = ''Error loading document preview.''"

definition noPreviewableFile :: string where
  "noPreviewableFile = ''No previewable file in Attachment.''"

definition missingConfiguration :: string where
  "missingConfiguration =
     ''Control is missing configuration (EntityLogicalName or FileColumnName).''"

section \<open>The modal control (DocumentPreview)\<close>

text \<open>
  The control with the preview button. \<open>modal\<close> stands for \<open>modalOverlay\<close>,
  \<open>modalContent\<close> and \<open>modalBody\<close>, which are assigned together in \<open>openModal\<close> and
  cleared together in \<open>destroyModal\<close>; its wrapper is the element that
  \<open>querySelector("[data-zoom-wrapper]")\<close> finds in the body. \<open>alerts\<close> lists the
  messages of \<open>alert\<close>, the earliest first.

  Each asynchronous method runs to its end before the next event is handled: an event
  stands for a call together with the answers of its awaited promises.
\<close>

record modal_dom =
  title :: string
  downloadButton :: bool
  bodyWrapper :: wrapper

record modal_control = control +
  previewDisabled :: bool
  fileLabel :: string
  modal :: "modal_dom option"
  alerts :: "string list"

definition init :: "pcf_context \<Rightarrow> modal_control" where
  "init c =
     \<lparr>ctx = c, zoomLevel = 1, currentFileUrl = None, currentFileName = None,
      currentMimeType = None, urlLog = [], nextUrl = 0,
      previewDisabled = False, fileLabel = [], modal = None, alerts = []\<rparr>"

definition checkAttachmentAndUpdateUI :: "world \<Rightarrow> modal_control \<Rightarrow> modal_control" where
  "checkAttachmentAndUpdateUI w s =
     (if falsy (entityId (ctx s)) \<or> falsy (entityLogicalName (ctx s)) \<or>
         falsy (fileColumnName (ctx s))
      then s\<lparr>fileLabel := missingConfiguration, previewDisabled := True\<rparr>
      else
        (case hasPreviewableAttachment (checkRecord w) of
           Inr hasPreview \<Rightarrow>
             if hasPreview then s\<lparr>fileLabel := [], previewDisabled := False\<rparr>
             else s\<lparr>fileLabel := noPreviewableFile, previewDisabled := True\<rparr>
         | Inl e \<Rightarrow> s\<lparr>fileLabel := ''Could not check Attachment.'', previewDisabled := True\<rparr>))"

definition updateView :: "pcf_context \<Rightarrow> world \<Rightarrow> modal_control \<Rightarrow> modal_control" where
  "updateView c w s =
     checkAttachmentAndUpdateUI w
       (s\<lparr>ctx := c, fileLabel := ''Checking attachment...'', previewDisabled := True\<rparr>)"

definition applyZoom :: "real \<Rightarrow> modal_control \<Rightarrow> modal_control" where
  "applyZoom z s =
     (case modal s of
        None \<Rightarrow> s
      | Some m \<Rightarrow>
          let level = min (max z 0.5) 3 in
          s\<lparr>zoomLevel := level,
            modal := Some (m\<lparr>bodyWrapper := (bodyWrapper m)\<lparr>transform := Some level\<rparr>\<rparr>)\<rparr>)"

definition destroyModal :: "modal_control \<Rightarrow> modal_control" where
  "destroyModal s = cleanupFileUrl (s\<lparr>modal := None\<rparr>)"

definition openModal :: "modal_control \<Rightarrow> modal_control" where
  "openModal s =
     (let s1 = (destroyModal s)\<lparr>zoomLevel := 1\<rparr>;
          s2 = s1\<lparr>modal :=
                  Some \<lparr>title = titleOf (currentFileName s1),
                        downloadButton = enableDownload (ctx s1),
                        bodyWrapper = \<lparr>transform = None, children = []\<rparr>\<rparr>\<rparr>
      in applyZoom 1 s2)"

text \<open>\<open>zoomWrapper.innerHTML = ""\<close> followed by the \<open>appendChild\<close> calls of one block.\<close>

definition setChildren :: "node list \<Rightarrow> modal_control \<Rightarrow> modal_control" where
  "setChildren cs s =
     (case modal s of
        None \<Rightarrow> s
      | Some m \<Rightarrow> s\<lparr>modal := Some (m\<lparr>bodyWrapper := (bodyWrapper m)\<lparr>children := cs\<rparr>\<rparr>)\<rparr>)"

text \<open>
  \<open>renderFilePreview\<close>: the error that leaves the method, if any, and the state. Only the
  DOCX block awaits a promise outside a \<open>try\<close>.
\<close>

definition renderFilePreview ::
  "world \<Rightarrow> preview_file \<Rightarrow> modal_control \<Rightarrow> error option \<times> modal_control" where
  "renderFilePreview w file s =
     (case modal s of
        None \<Rightarrow> (None, s)
      | Some m \<Rightarrow>
          (case renderBranch file of
             PdfBranch \<Rightarrow> (None, setChildren (pdfBlock w) s)
           | ImageBranch \<Rightarrow> (None, setChildren (imageBlock w) s)
           | DocxBranch \<Rightarrow>
               (case docxRender w of
                  Some err \<Rightarrow> (Some err, setChildren [WordContainer False] s)
                | None \<Rightarrow> (None, setChildren [WordContainer True] s))
           | LegacyDocBranch \<Rightarrow>
               (None, setChildren [LegacyDocContainer legacyDocMessage ''Open document''] s)
           | FallbackBranch \<Rightarrow> (None, setChildren [InfoBlock (notAvailableMessage file)] s)))"

text \<open>The \<open>try\<close> block of \<open>onPreviewClick\<close>.\<close>

definition onPreviewClick_try :: "world \<Rightarrow> modal_control \<Rightarrow> error option \<times> modal_control" where
  "onPreviewClick_try w s =
     (case downloadFile w of
        Inl err \<Rightarrow> (Some err, s)
      | Inr file \<Rightarrow>
          let s1 = s\<lparr>currentFileName := Some (fileName file),
                     currentMimeType := Some (mimeType file)\<rparr>;
              s2 = cleanupFileUrl s1;
              (url, s3) = createObjectURL FileUrl s2;
              s4 = s3\<lparr>currentFileUrl := Some url\<rparr>;
              s5 = openModal s4
          in renderFilePreview w file s5)"

definition onPreviewClick :: "world \<Rightarrow> modal_control \<Rightarrow> modal_control" where
  "onPreviewClick w s =
     (if previewDisabled s then s
      else if falsy (entityId (ctx s)) \<or> falsy (entityLogicalName (ctx s)) \<or>
              falsy (fileColumnName (ctx s))
      then s\<lparr>alerts := alerts s @ [missingConfiguration]\<rparr>
      else
        (case onPreviewClick_try w s of
           (None, s') \<Rightarrow> s'
         | (Some err, s') \<Rightarrow>
             if errStatus err = Some 403 then s'\<lparr>alerts := alerts s' @ [permissionDenied]\<rparr>
             else s'\<lparr>alerts := alerts s' @ [genericFailure]\<rparr>))"

definition destroy :: "modal_control \<Rightarrow> modal_control" where
  "destroy s = destroyModal (cleanupFileUrl s)"

text \<open>
  What the host and the user can do: the host's \<open>updateView\<close> and \<open>destroy\<close>, a click on
  the preview button, and clicks on the zoom and close buttons of the modal.
\<close>

datatype modal_event =
    UpdateView pcf_context world
  | PreviewClick world
  | ZoomOut
  | ZoomIn
  | ZoomReset
  | CloseModal
  | Destroy

fun modal_step :: "modal_control \<Rightarrow> modal_event \<Rightarrow> modal_control" where
  "modal_step s (UpdateView c w) = updateView c w s"
| "modal_step s (PreviewClick w) = onPreviewClick w s"
| "modal_step s ZoomOut = applyZoom (zoomLevel s - 0.1) s"
| "modal_step s ZoomIn = applyZoom (zoomLevel s + 0.1) s"
| "modal_step s ZoomReset = applyZoom 1 s"
| "modal_step s CloseModal = destroyModal s"
| "modal_step s Destroy = destroy s"

definition run_modal :: "pcf_context \<Rightarrow> modal_event list \<Rightarrow> modal_control" where
  "run_modal c evs = foldl modal_step (init c) evs"

definition appliedScale :: "modal_control \<Rightarrow> real option" where
  "appliedScale s = (case modal s of None \<Rightarrow> None | Some m \<Rightarrow> transform (bodyWrapper m))"

definition shownChildren :: "modal_control \<Rightarrow> node list" where
  "shownChildren s = (case modal s of None \<Rightarrow> [] | Some m \<Rightarrow> children (bodyWrapper m))"

section \<open>The inline control (DocumentPreviewInline)\<close>

text \<open>
  The control without a button: every \<open>updateView\<close> loads the preview into the panel
  that \<open>init\<close> built. \<open>zoomWrapper\<close> and \<open>toolbarTitle\<close> (the text of
  \<open>previewToolbarTitle\<close>) are \<open>None\<close> before \<open>init\<close>. In this section the promise
  of the worker URL is settled when it is created, as if the callback of \<open>getResource\<close>
  ran at once, and \<open>updateView\<close> runs the load to its end; the section on interleaved
  execution takes both apart.
\<close>

datatype promise = Pending | Resolved nat | Rejected error

record inline_control = control +
  zoomWrapper :: "wrapper option"
  toolbarTitle :: "string option"
  pdfWorkerUrl :: "nat option"
  pdfWorkerUrlPromise :: "promise option"

definition ensurePdfWorkerUrl :: "world \<Rightarrow> inline_control \<Rightarrow> promise \<times> inline_control" where
  "ensurePdfWorkerUrl w s =
     (case pdfWorkerUrlPromise s of
        Some p \<Rightarrow> (p, s)
      | None \<Rightarrow>
          (case workerResource w of
             None \<Rightarrow>
               (let p = Rejected (Error ''Error loading pdf.js worker resource'' None)
                in (p, s\<lparr>pdfWorkerUrlPromise := Some p\<rparr>))
           | Some (Inl e) \<Rightarrow> (Rejected e, s\<lparr>pdfWorkerUrlPromise := Some (Rejected e)\<rparr>)
           | Some (Inr byteChars) \<Rightarrow>
               (let (url, s1) = createObjectURL WorkerUrl s
                in (Resolved url,
                    s1\<lparr>pdfWorkerUrl := Some url, pdfWorkerUrlPromise := Some (Resolved url)\<rparr>))))"

definition applyZoom_inline :: "real \<Rightarrow> inline_control \<Rightarrow> inline_control" where
  "applyZoom_inline z s =
     (case zoomWrapper s of
        None \<Rightarrow> s
      | Some zw \<Rightarrow>
          let level = min (max z 0.5) 3 in
          s\<lparr>zoomLevel := level, zoomWrapper := Some (zw\<lparr>transform := Some level\<rparr>)\<rparr>)"

definition init_inline :: "pcf_context \<Rightarrow> world \<Rightarrow> inline_control" where
  "init_inline c w =
     (let s0 = \<lparr>ctx = c, zoomLevel = 1, currentFileUrl = None, currentFileName = None,
                currentMimeType = None, urlLog = [], nextUrl = 0,
                zoomWrapper = None, toolbarTitle = None, pdfWorkerUrl = None,
                pdfWorkerUrlPromise = None\<rparr>;
          (p, s1) = ensurePdfWorkerUrl w s0;
          s2 = s1\<lparr>toolbarTitle := Some ''Document preview'',
                    zoomWrapper := Some \<lparr>transform = None, children = []\<rparr>\<rparr>
      in applyZoom_inline 1 s2)"

definition setChildren_inline :: "node list \<Rightarrow> inline_control \<Rightarrow> inline_control" where
  "setChildren_inline cs s =
     (case zoomWrapper s of
        None \<Rightarrow> s
      | Some zw \<Rightarrow> s\<lparr>zoomWrapper := Some (zw\<lparr>children := cs\<rparr>)\<rparr>)"

definition setInfoMessage :: "string \<Rightarrow> inline_control \<Rightarrow> inline_control" where
  "setInfoMessage msg s =
     (case zoomWrapper s of
        None \<Rightarrow> s
      | Some zw \<Rightarrow>
          s\<lparr>zoomWrapper := Some (zw\<lparr>children := [InfoBlock msg]\<rparr>),
            toolbarTitle :=
              (case toolbarTitle s of None \<Rightarrow> None | Some t \<Rightarrow> Some ''Document preview'')\<rparr>)"

text \<open>
  \<open>renderFilePreview\<close> of the inline control. Its PDF block first awaits
  \<open>ensurePdfWorkerUrl\<close> and swallows a rejection; the rest is as in the modal control.
\<close>

definition renderFilePreview_inline ::
  "world \<Rightarrow> preview_file \<Rightarrow> inline_control \<Rightarrow> error option \<times> inline_control" where
  "renderFilePreview_inline w file s =
     (case zoomWrapper s of
        None \<Rightarrow> (None, s)
      | Some zw \<Rightarrow>
          (case renderBranch file of
             PdfBranch \<Rightarrow>
               (let (p, s1) = ensurePdfWorkerUrl w s
                in (None, setChildren_inline (pdfBlock w) s1))
           | ImageBranch \<Rightarrow> (None, setChildren_inline (imageBlock w) s)
           | DocxBranch \<Rightarrow>
               (case docxRender w of
                  Some err \<Rightarrow> (Some err, setChildren_inline [WordContainer False] s)
                | None \<Rightarrow> (None, setChildren_inline [WordContainer True] s))
           | LegacyDocBranch \<Rightarrow>
               (None,
                setChildren_inline [LegacyDocContainer legacyDocMessage ''Open document''] s)
           | FallbackBranch \<Rightarrow>
               (None, setChildren_inline [InfoBlock (notAvailableMessage file)] s)))"

text \<open>The \<open>try\<close> block of \<open>autoLoadPreview\<close>.\<close>

definition autoLoadPreview_try ::
  "world \<Rightarrow> inline_control \<Rightarrow> error option \<times> inline_control" where
  "autoLoadPreview_try w s =
     (case hasPreviewableAttachment (checkRecord w) of
        Inl err \<Rightarrow> (Some err, s)
      | Inr hasPreview \<Rightarrow>
          if \<not> hasPreview then (None, setInfoMessage noPreviewableFile s)
          else
            (case downloadFile w of
               Inl err \<Rightarrow> (Some err, s)
             | Inr file \<Rightarrow>
                 let s1 = s\<lparr>currentFileName := Some (fileName file),
                            currentMimeType := Some (mimeType file)\<rparr>;
                     s2 = cleanupFileUrl s1;
                     (url, s3) = createObjectURL FileUrl s2;
                     s4 = s3\<lparr>currentFileUrl := Some url\<rparr>;
                     s5 = s4\<lparr>toolbarTitle :=
                               (case toolbarTitle s4 of
                                  None \<Rightarrow> None
                                | Some t \<Rightarrow> Some (titleOf (currentFileName s4)))\<rparr>
                 in renderFilePreview_inline w file s5))"

definition autoLoadPreview :: "world \<Rightarrow> inline_control \<Rightarrow> inline_control" where
  "autoLoadPreview w s =
     (case zoomWrapper s of
        None \<Rightarrow> s
      | Some zw \<Rightarrow>
          if falsy (entityId (ctx s)) then
            setInfoMessage ''Save the record and upload a file to see the document preview.'' s
          else if falsy (entityLogicalName (ctx s)) \<or> falsy (fileColumnName (ctx s)) then
            setInfoMessage missingConfiguration s
          else
            (case autoLoadPreview_try w s of
               (None, s') \<Rightarrow> s'
             | (Some err, s') \<Rightarrow>
                 if errStatus err = Some 403 then setInfoMessage permissionDenied s'
                 else setInfoMessage genericFailure s'))"

definition updateView_inline :: "pcf_context \<Rightarrow> world \<Rightarrow> inline_control \<Rightarrow> inline_control" where
  "updateView_inline c w s = autoLoadPreview w (s\<lparr>ctx := c\<rparr>)"

definition destroy_inline :: "inline_control \<Rightarrow> inline_control" where
  "destroy_inline s =
     (let s1 = cleanupFileUrl s in
      case pdfWorkerUrl s1 of
        None \<Rightarrow> s1
      | Some u \<Rightarrow> (revokeObjectURL u s1)\<lparr>pdfWorkerUrl := None\<rparr>)"

datatype inline_event =
    InlineUpdateView pcf_context world
  | InlineZoomOut
  | InlineZoomIn
  | InlineZoomReset
  | InlineDestroy

fun inline_step :: "inline_control \<Rightarrow> inline_event \<Rightarrow> inline_control" where
  "inline_step s (InlineUpdateView c w) = updateView_inline c w s"
| "inline_step s InlineZoomOut = applyZoom_inline (zoomLevel s - 0.1) s"
| "inline_step s InlineZoomIn = applyZoom_inline (zoomLevel s + 0.1) s"
| "inline_step s InlineZoomReset = applyZoom_inline 1 s"
| "inline_step s InlineDestroy = destroy_inline s"

definition run_inline :: "pcf_context \<Rightarrow> world \<Rightarrow> inline_event list \<Rightarrow> inline_control" where
  "run_inline c w evs = foldl inline_step (init_inline c w) evs"

definition appliedScale_inline :: "inline_control \<Rightarrow> real option" where
  "appliedScale_inline s = (case zoomWrapper s of None \<Rightarrow> None | Some zw \<Rightarrow> transform zw)"

definition shownChildren_inline :: "inline_control \<Rightarrow> node list" where
  "shownChildren_inline s = (case zoomWrapper s of None \<Rightarrow> [] | Some zw \<Rightarrow> children zw)"

section \<open>Interleaved execution\<close>

text \<open>
  An asynchronous method runs up to its first \<open>await\<close> when it is called. What follows
  the \<open>await\<close> runs when the answer arrives, and the host and the user can act in
  between: \<open>updateView\<close> does not wait for \<open>autoLoadPreview\<close> or for
  \<open>checkAttachmentAndUpdateUI\<close>, and \<open>destroy\<close> cancels nothing. A system is a
  control with the calls that are waiting for an answer; resuming the \<open>i\<close>-th of them
  with the answers of a world runs it up to its next \<open>await\<close>.

  The requests inside \<open>downloadFile\<close> are one step, since the control's fields modelled
  here do not change between them. Rendering writes into the zoom wrapper only, and
  is run in one piece with the continuation that starts it.
\<close>

definition removeTask :: "nat \<Rightarrow> 'a list \<Rightarrow> 'a list" where
  "removeTask i ts = take i ts @ drop (Suc i) ts"

subsection \<open>The modal control\<close>

text \<open>What \<open>checkAttachmentAndUpdateUI\<close> does once \<open>hasPreviewableAttachment\<close> has answered.\<close>

definition checkAttachment_resume :: "world \<Rightarrow> modal_control \<Rightarrow> modal_control" where
  "checkAttachment_resume w s =
     (case hasPreviewableAttachment (checkRecord w) of
        Inr hasPreview \<Rightarrow>
          if hasPreview then s\<lparr>fileLabel := [], previewDisabled := False\<rparr>
          else s\<lparr>fileLabel := noPreviewableFile, previewDisabled := True\<rparr>
      | Inl e \<Rightarrow> s\<lparr>fileLabel := ''Could not check Attachment.'', previewDisabled := True\<rparr>)"

text \<open>The \<open>catch\<close> block of \<open>onPreviewClick\<close>, and the method from its \<open>try\<close> on.\<close>

definition onPreviewClick_catch :: "error \<Rightarrow> modal_control \<Rightarrow> modal_control" where
  "onPreviewClick_catch err s =
     (if errStatus err = Some 403 then s\<lparr>alerts := alerts s @ [permissionDenied]\<rparr>
      else s\<lparr>alerts := alerts s @ [genericFailure]\<rparr>)"

definition onPreviewClick_resume :: "world \<Rightarrow> modal_control \<Rightarrow> modal_control" where
  "onPreviewClick_resume w s =
     (case onPreviewClick_try w s of
        (None, s') \<Rightarrow> s'
      | (Some err, s') \<Rightarrow> onPreviewClick_catch err s')"

datatype modal_task = AwaitingAttachment | AwaitingFile

record modal_system =
  widget :: modal_control
  modalTasks :: "modal_task list"

datatype modal_async_event =
    CallUpdateView pcf_context
  | ClickPreview
  | ResumeModal nat world
  | ClickZoomOut
  | ClickZoomIn
  | ClickZoomReset
  | ClickClose
  | CallDestroy

fun modal_async_step :: "modal_system \<Rightarrow> modal_async_event \<Rightarrow> modal_system" where
  "modal_async_step sys (CallUpdateView c) =
     (let s = (widget sys)\<lparr>ctx := c, fileLabel := ''Checking attachment...'',
                             previewDisabled := True\<rparr>
      in
      if falsy (entityId (ctx s)) \<or> falsy (entityLogicalName (ctx s)) \<or>
         falsy (fileColumnName (ctx s))
      then sys\<lparr>widget := s\<lparr>fileLabel := missingConfiguration, previewDisabled := True\<rparr>\<rparr>
      else sys\<lparr>widget := s, modalTasks := modalTasks sys @ [AwaitingAttachment]\<rparr>)"
| "modal_async_step sys ClickPreview =
     (let s = widget sys in
      if previewDisabled s then sys
      else if falsy (entityId (ctx s)) \<or> falsy (entityLogicalName (ctx s)) \<or>
              falsy (fileColumnName (ctx s))
      then sys\<lparr>widget := s\<lparr>alerts := alerts s @ [missingConfiguration]\<rparr>\<rparr>
      else sys\<lparr>modalTasks := modalTasks sys @ [AwaitingFile]\<rparr>)"
| "modal_async_step sys (ResumeModal i w) =
     (if i < length (modalTasks sys) then
        (case modalTasks sys ! i of
           AwaitingAttachment \<Rightarrow>
             sys\<lparr>widget := checkAttachment_resume w (widget sys),
                 modalTasks := removeTask i (modalTasks sys)\<rparr>
         | AwaitingFile \<Rightarrow>
             sys\<lparr>widget := onPreviewClick_resume w (widget sys),
                 modalTasks := removeTask i (modalTasks sys)\<rparr>)
      else sys)"
| "modal_async_step sys ClickZoomOut =
     sys\<lparr>widget := applyZoom (zoomLevel (widget sys) - 0.1) (widget sys)\<rparr>"
| "modal_async_step sys ClickZoomIn =
     sys\<lparr>widget := applyZoom (zoomLevel (widget sys) + 0.1) (widget sys)\<rparr>"
| "modal_async_step sys ClickZoomReset = sys\<lparr>widget := applyZoom 1 (widget sys)\<rparr>"
| "modal_async_step sys ClickClose = sys\<lparr>widget := destroyModal (widget sys)\<rparr>"
| "modal_async_step sys CallDestroy = sys\<lparr>widget := destroy (widget sys)\<rparr>"

definition run_modal_async :: "pcf_context \<Rightarrow> modal_async_event list \<Rightarrow> modal_system" where
  "run_modal_async c evs = foldl modal_async_step \<lparr>widget = init c, modalTasks = []\<rparr> evs"

subsection \<open>The inline control\<close>

text \<open>
  \<open>init\<close> up to the call of \<open>getResource\<close>: the promise of the worker URL exists and is
  pending. The host runs one of the two callbacks, once and at a time of its choosing
  (also after \<open>destroy\<close>); that settles the promise, and a later call of
  \<open>ensurePdfWorkerUrl\<close> returns the same promise.
\<close>

definition init_async :: "pcf_context \<Rightarrow> inline_control" where
  "init_async c =
     (let s0 = \<lparr>ctx = c, zoomLevel = 1, currentFileUrl = None, currentFileName = None,
                currentMimeType = None, urlLog = [], nextUrl = 0,
                zoomWrapper = None, toolbarTitle = None, pdfWorkerUrl = None,
                pdfWorkerUrlPromise = None\<rparr>;
          s1 = s0\<lparr>pdfWorkerUrlPromise := Some Pending\<rparr>;
          s2 = s1\<lparr>toolbarTitle := Some ''Document preview'',
                    zoomWrapper := Some \<lparr>transform = None, children = []\<rparr>\<rparr>
      in applyZoom_inline 1 s2)"

definition resourceCallback :: "(error + string) option \<Rightarrow> inline_control \<Rightarrow> inline_control" where
  "resourceCallback answer s =
     (if pdfWorkerUrlPromise s = Some Pending then
        (case answer of
           None \<Rightarrow>
             s\<lparr>pdfWorkerUrlPromise :=
                 Some (Rejected (Error ''Error loading pdf.js worker resource'' None))\<rparr>
         | Some (Inl e) \<Rightarrow> s\<lparr>pdfWorkerUrlPromise := Some (Rejected e)\<rparr>
         | Some (Inr byteChars) \<Rightarrow>
             (let (url, s1) = createObjectURL WorkerUrl s
              in s1\<lparr>pdfWorkerUrl := Some url, pdfWorkerUrlPromise := Some (Resolved url)\<rparr>))
      else s)"

text \<open>The \<open>catch\<close> block of \<open>autoLoadPreview\<close>, and the method from \<open>downloadFile\<close> on.\<close>

definition autoLoadPreview_catch :: "error \<Rightarrow> inline_control \<Rightarrow> inline_control" where
  "autoLoadPreview_catch err s =
     (if errStatus err = Some 403 then setInfoMessage permissionDenied s
      else setInfoMessage genericFailure s)"

definition autoLoadPreview_download :: "world \<Rightarrow> inline_control \<Rightarrow> inline_control" where
  "autoLoadPreview_download w s =
     (case downloadFile w of
        Inl err \<Rightarrow> autoLoadPreview_catch err s
      | Inr file \<Rightarrow>
          let s1 = s\<lparr>currentFileName := Some (fileName file),
                     currentMimeType := Some (mimeType file)\<rparr>;
              s2 = cleanupFileUrl s1;
              (url, s3) = createObjectURL FileUrl s2;
              s4 = s3\<lparr>currentFileUrl := Some url\<rparr>;
              s5 = s4\<lparr>toolbarTitle :=
                        (case toolbarTitle s4 of
                           None \<Rightarrow> None
                         | Some t \<Rightarrow> Some (titleOf (currentFileName s4)))\<rparr>
          in
          (case renderFilePreview_inline w file s5 of
             (None, s') \<Rightarrow> s'
           | (Some err, s') \<Rightarrow> autoLoadPreview_catch err s'))"

datatype inline_task = AwaitingCheck | AwaitingDownload

record inline_system =
  panel :: inline_control
  inlineTasks :: "inline_task list"

datatype inline_async_event =
    PanelUpdateView pcf_context
  | ResumePanel nat world
  | ResourceCallback "(error + string) option"
  | PanelZoomOut
  | PanelZoomIn
  | PanelZoomReset
  | PanelDestroy

fun inline_async_step :: "inline_system \<Rightarrow> inline_async_event \<Rightarrow> inline_system" where
  "inline_async_step sys (PanelUpdateView c) =
     (let s = (panel sys)\<lparr>ctx := c\<rparr> in
      case zoomWrapper s of
        None \<Rightarrow> sys\<lparr>panel := s\<rparr>
      | Some zw \<Rightarrow>
          if falsy (entityId (ctx s)) then
            sys\<lparr>panel :=
                  setInfoMessage
                    ''Save the record and upload a file to see the document preview.'' s\<rparr>
          else if falsy (entityLogicalName (ctx s)) \<or> falsy (fileColumnName (ctx s)) then
            sys\<lparr>panel := setInfoMessage missingConfiguration s\<rparr>
          else sys\<lparr>panel := s, inlineTasks := inlineTasks sys @ [AwaitingCheck]\<rparr>)"
| "inline_async_step sys (ResumePanel i w) =
     (if i < length (inlineTasks sys) then
        (case inlineTasks sys ! i of
           AwaitingCheck \<Rightarrow>
             (case hasPreviewableAttachment (checkRecord w) of
                Inl err \<Rightarrow>
                  sys\<lparr>panel := autoLoadPreview_catch err (panel sys),
                      inlineTasks := removeTask i (inlineTasks sys)\<rparr>
              | Inr hasPreview \<Rightarrow>
                  if \<not> hasPreview then
                    sys\<lparr>panel := setInfoMessage noPreviewableFile (panel sys),
                        inlineTasks := removeTask i (inlineTasks sys)\<rparr>
                  else sys\<lparr>inlineTasks := (inlineTasks sys)[i := AwaitingDownload]\<rparr>)
         | AwaitingDownload \<Rightarrow>
             sys\<lparr>panel := autoLoadPreview_download w (panel sys),
                 inlineTasks := removeTask i (inlineTasks sys)\<rparr>)
      else sys)"
| "inline_async_step sys (ResourceCallback answer) =
     sys\<lparr>panel := resourceCallback answer (panel sys)\<rparr>"
| "inline_async_step sys PanelZoomOut =
     sys\<lparr>panel := applyZoom_inline (zoomLevel (panel sys) - 0.1) (panel sys)\<rparr>"
| "inline_async_step sys PanelZoomIn =
     sys\<lparr>panel := applyZoom_inline (zoomLevel (panel sys) + 0.1) (panel sys)\<rparr>"
| "inline_async_step sys PanelZoomReset = sys\<lparr>panel := applyZoom_inline 1 (panel sys)\<rparr>"
| "inline_async_step sys PanelDestroy = sys\<lparr>panel := destroy_inline (panel sys)\<rparr>"

definition run_inline_async :: "pcf_context \<Rightarrow> inline_async_event list \<Rightarrow> inline_system" where
  "run_inline_async c evs =
     foldl inline_async_step \<lparr>panel = init_async c, inlineTasks = []\<rparr> evs"

section \<open>Invariants of the two controls\<close>

text \<open>
  The live object URLs are those the fields of the control hold: the URL of the previewed
  file, and in the inline control the URL of the pdf.js worker. The zoom level lies
  between 0.5 and 3 and is the scale on the zoom wrapper, where there is one.
\<close>

definition urlsOf :: "url_kind \<Rightarrow> nat option \<Rightarrow> (url_kind \<times> nat) list" where
  "urlsOf k u = (case u of None \<Rightarrow> [] | Some x \<Rightarrow> [(k, x)])"

definition modal_url_inv :: "modal_control \<Rightarrow> bool" where
  "modal_url_inv s =
     (atMostOneLive (urlLog s) \<and> liveUrls (urlLog s) = urlsOf FileUrl (currentFileUrl s))"

definition modal_zoom_inv :: "modal_control \<Rightarrow> bool" where
  "modal_zoom_inv s =
     (1 / 2 \<le> zoomLevel s \<and> zoomLevel s \<le> 3 \<and>
      appliedScale s = (if modal s = None then None else Some (zoomLevel s)))"

definition inline_url_inv :: "inline_control \<Rightarrow> bool" where
  "inline_url_inv s =
     (atMostOneLive (urlLog s) \<and>
      liveUrls (urlLog s) =
        urlsOf FileUrl (currentFileUrl s) @ urlsOf WorkerUrl (pdfWorkerUrl s) \<and>
      pdfWorkerUrlPromise s \<noteq> None \<and>
      (\<forall>u. pdfWorkerUrl s = Some u \<longrightarrow> u < nextUrl s \<and> currentFileUrl s \<noteq> Some u))"

definition inline_zoom_inv :: "inline_control \<Rightarrow> bool" where
  "inline_zoom_inv s =
     (1 / 2 \<le> zoomLevel s \<and> zoomLevel s \<le> 3 \<and> zoomWrapper s \<noteq> None \<and>
      appliedScale_inline s = Some (zoomLevel s))"

definition inline_inv :: "inline_control \<Rightarrow> bool" where
  "inline_inv s = (inline_url_inv s \<and> inline_zoom_inv s)"

text \<open>
  Under interleaving the worker's URL can be created after a file's, so the live URLs
  are compared as a set; object URLs are numbered in the order of their creation.
\<close>

definition inline_async_inv :: "inline_control \<Rightarrow> bool" where
  "inline_async_inv s =
     (atMostOneLive (urlLog s) \<and>
      set (liveUrls (urlLog s)) =
        set (urlsOf FileUrl (currentFileUrl s) @ urlsOf WorkerUrl (pdfWorkerUrl s)) \<and>
      pdfWorkerUrlPromise s \<noteq> None \<and>
      (pdfWorkerUrlPromise s = Some Pending \<longrightarrow> pdfWorkerUrl s = None) \<and>
      (\<forall>u. currentFileUrl s = Some u \<longrightarrow> u < nextUrl s \<and> pdfWorkerUrl s \<noteq> Some u) \<and>
      (\<forall>u. pdfWorkerUrl s = Some u \<longrightarrow> u < nextUrl s))"

section \<open>Example inputs\<close>

text \<open>
  A configured context, a PDF document of three pages that all render, and a world in
  which every request succeeds, for a record with the given file reference and name.
\<close>

definition exampleContext :: pcf_context where
  "exampleContext =
     \<lparr>entityId = Some ''6f1c'', entityLogicalName = Some ''account'',
      fileColumnName = Some ''contract'', enableDownload = True\<rparr>"

definition examplePdf :: pdf_document where
  "examplePdf = \<lparr>numPages = 3, getPage = (\<lambda>pageNum. Inr (Page None))\<rparr>"

definition exampleWorld :: "string option \<Rightarrow> string option \<Rightarrow> world" where
  "exampleWorld ref name =
     \<lparr>checkRecord = Inr \<lparr>fileRef = ref, fileNameColumn = name\<rparr>,
      downloadRecord = Inr \<lparr>fileRef = ref, fileNameColumn = name\<rparr>,
      fetchResponse =
        Inr \<lparr>responseOk = True, responseStatus = 200, responseBytes = Inr ''abc''\<rparr>,
      workerResource = Some (Inr ''js''),
      pdfDocument = Inr examplePdf,
      imageReader = Some ''data:image/png;base64,AAAA'',
      docxRender = None\<rparr>"

text \<open>
  A PDF named \<open>Report.PDF\<close>; a record whose name is \<open>report.pdf\<close> and whose file
  column is empty; a text file; a download that the server refuses with status 403; a
  PDF that pdf.js rejects with an error of status 403; and a Word document that
  docx-preview cannot render.
\<close>

definition pdfWorld :: world where
  "pdfWorld = exampleWorld (Some ''guid'') (Some ''Report.PDF'')"

definition absentFileWorld :: world where
  "absentFileWorld = exampleWorld None (Some ''report.pdf'')"

definition txtWorld :: world where
  "txtWorld = exampleWorld (Some ''guid'') (Some ''notes.TXT'')"



definition docxWorld :: world where
  "docxWorld =
     (exampleWorld (Some ''guid'') (Some ''letter.docx''))
       \<lparr>docxRender := Some (Error ''corrupt archive'' None)\<rparr>"

section \<open>Strings: the last dot and the suffixes\<close>

lemma lastIndexOfFrom_absent:
  "c \<notin> set xs \<Longrightarrow> lastIndexOfFrom xs c i found = found"
  by (induction xs arbitrary: i found) auto

lemma lastIndexOfFrom_last:
  "c \<notin> set ext \<Longrightarrow> lastIndexOfFrom (base @ c # ext) c i found = int (i + length base)"
  by (induction base arbitrary: i found) (auto simp: lastIndexOfFrom_absent)

lemma lastIndexOf_last:
  "c \<notin> set ext \<Longrightarrow> lastIndexOf (base @ c # ext) c = int (length base)"
  by (simp add: lastIndexOf_def lastIndexOfFrom_last)

lemma endsWith_last: "endsWith s suf \<Longrightarrow> suf \<noteq> [] \<Longrightarrow> last s = last suf"
proof -
  assume e: "endsWith s suf" and n: "suf \<noteq> []"
  from e have d: "drop (length s - length suf) s = suf"
    by (simp add: endsWith_def)
  with n have "drop (length s - length suf) s \<noteq> []" by simp
  then have "last (drop (length s - length suf) s) = last s"
    by (simp add: last_drop)
  with d show ?thesis by simp
qed

lemma endsWith_butlast:
  "endsWith s suf \<Longrightarrow> suf \<noteq> [] \<Longrightarrow> endsWith (butlast s) (butlast suf)"
  unfolding endsWith_def
  by (auto simp: butlast_drop[symmetric])

lemma endsWith_excl:
  "endsWith s a \<Longrightarrow> endsWith s b \<Longrightarrow> a \<noteq> [] \<Longrightarrow> b \<noteq> [] \<Longrightarrow> last a = last b"
  using endsWith_last by metis

lemma endsWith_excl2:
  assumes "endsWith s a" "endsWith s b" "butlast a \<noteq> []" "butlast b \<noteq> []"
  shows "last (butlast a) = last (butlast b)"
proof -
  have "a \<noteq> []" "b \<noteq> []" using assms(3,4) by auto
  then have "endsWith (butlast s) (butlast a)" "endsWith (butlast s) (butlast b)"
    using assms(1,2) endsWith_butlast by blast+
  then show ?thesis using assms(3,4) endsWith_excl by blast
qed

text \<open>No string ends with two of the seven suffixes, but for \<open>.jpg\<close> and \<open>.jpeg\<close> apart.\<close>

lemma suffix_pdf_docx: "endsWith s ''.pdf'' \<Longrightarrow> \<not> endsWith s ''.docx''"
  using endsWith_excl[of s "''.pdf''" "''.docx''"] by auto

lemma suffix_pdf_doc: "endsWith s ''.pdf'' \<Longrightarrow> \<not> endsWith s ''.doc''"
  using endsWith_excl[of s "''.pdf''" "''.doc''"] by auto

lemma suffix_pdf_png: "endsWith s ''.pdf'' \<Longrightarrow> \<not> endsWith s ''.png''"
  using endsWith_excl[of s "''.pdf''" "''.png''"] by auto

lemma suffix_pdf_jpg: "endsWith s ''.pdf'' \<Longrightarrow> \<not> endsWith s ''.jpg''"
  using endsWith_excl[of s "''.pdf''" "''.jpg''"] by auto

lemma suffix_pdf_jpeg: "endsWith s ''.pdf'' \<Longrightarrow> \<not> endsWith s ''.jpeg''"
  using endsWith_excl[of s "''.pdf''" "''.jpeg''"] by auto

lemma suffix_pdf_gif: "endsWith s ''.pdf'' \<Longrightarrow> \<not> endsWith s ''.gif''"
  using endsWith_excl2[of s "''.pdf''" "''.gif''"] by auto

lemma suffix_docx_doc: "endsWith s ''.docx'' \<Longrightarrow> \<not> endsWith s ''.doc''"
  using endsWith_excl[of s "''.docx''" "''.doc''"] by auto

lemma suffix_docx_png: "endsWith s ''.docx'' \<Longrightarrow> \<not> endsWith s ''.png''"
  using endsWith_excl[of s "''.docx''" "''.png''"] by auto

lemma suffix_docx_jpg: "endsWith s ''.docx'' \<Longrightarrow> \<not> endsWith s ''.jpg''"
  using endsWith_excl[of s "''.docx''" "''.jpg''"] by auto

lemma suffix_docx_jpeg: "endsWith s ''.docx'' \<Longrightarrow> \<not> endsWith s ''.jpeg''"
  using endsWith_excl[of s "''.docx''" "''.jpeg''"] by auto

lemma suffix_docx_gif: "endsWith s ''.docx'' \<Longrightarrow> \<not> endsWith s ''.gif''"
  using endsWith_excl[of s "''.docx''" "''.gif''"] by auto

lemma suffix_doc_png: "endsWith s ''.doc'' \<Longrightarrow> \<not> endsWith s ''.png''"
  using endsWith_excl[of s "''.doc''" "''.png''"] by auto

lemma suffix_doc_jpg: "endsWith s ''.doc'' \<Longrightarrow> \<not> endsWith s ''.jpg''"
  using endsWith_excl[of s "''.doc''" "''.jpg''"] by auto

lemma suffix_doc_jpeg: "endsWith s ''.doc'' \<Longrightarrow> \<not> endsWith s ''.jpeg''"
  using endsWith_excl[of s "''.doc''" "''.jpeg''"] by auto

lemma suffix_doc_gif: "endsWith s ''.doc'' \<Longrightarrow> \<not> endsWith s ''.gif''"
  using endsWith_excl[of s "''.doc''" "''.gif''"] by auto

lemma suffix_png_jpg: "endsWith s ''.png'' \<Longrightarrow> \<not> endsWith s ''.jpg''"
  using endsWith_excl2[of s "''.png''" "''.jpg''"] by auto

lemma suffix_png_jpeg: "endsWith s ''.png'' \<Longrightarrow> \<not> endsWith s ''.jpeg''"
  using endsWith_excl2[of s "''.png''" "''.jpeg''"] by auto

lemma suffix_png_gif: "endsWith s ''.png'' \<Longrightarrow> \<not> endsWith s ''.gif''"
  using endsWith_excl[of s "''.png''" "''.gif''"] by auto

lemma suffix_jpg_gif: "endsWith s ''.jpg'' \<Longrightarrow> \<not> endsWith s ''.gif''"
  using endsWith_excl[of s "''.jpg''" "''.gif''"] by auto

lemma suffix_jpeg_gif: "endsWith s ''.jpeg'' \<Longrightarrow> \<not> endsWith s ''.gif''"
  using endsWith_excl[of s "''.jpeg''" "''.gif''"] by auto

lemmas suffix_exclusive =
  suffix_pdf_docx suffix_pdf_doc suffix_pdf_png suffix_pdf_jpg suffix_pdf_jpeg suffix_pdf_gif
  suffix_docx_doc suffix_docx_png suffix_docx_jpg suffix_docx_jpeg suffix_docx_gif
  suffix_doc_png suffix_doc_jpg suffix_doc_jpeg suffix_doc_gif
  suffix_png_jpg suffix_png_jpeg suffix_png_gif suffix_jpg_gif suffix_jpeg_gif

section \<open>The MIME type that downloadFile resolves\<close>

lemma mimeType_by_suffix:
  "(mimeTypeOfLowerName n = ''application/pdf'') = endsWith n ''.pdf''"
  "(mimeTypeOfLowerName n =
      ''application/vnd.openxmlformats-officedocument.wordprocessingml.document'') =
     endsWith n ''.docx''"
  "(mimeTypeOfLowerName n = ''application/msword'') = endsWith n ''.doc''"
  "(mimeTypeOfLowerName n = ''image/png'') = endsWith n ''.png''"
  "(mimeTypeOfLowerName n = ''image/jpeg'') = (endsWith n ''.jpg'' \<or> endsWith n ''.jpeg'')"
  "(mimeTypeOfLowerName n = ''image/gif'') = endsWith n ''.gif''"
  "(mimeTypeOfLowerName n = ''application/octet-stream'') =
     (\<not> (\<exists>suffix \<in> set knownSuffixes. endsWith n suffix))"
  using suffix_exclusive[of n]
  by (auto simp: mimeTypeOfLowerName_def knownSuffixes_def)

lemma mimeType_known:
  "mimeTypeOfLowerName n \<in> set (supportedMimeTypes @ [''application/octet-stream''])"
  by (simp add: mimeTypeOfLowerName_def supportedMimeTypes_def)

lemma downloadFile_mimeType:
  "downloadFile w = Inr f \<Longrightarrow> mimeType f = mimeTypeOfLowerName (toLowerCase (fileName f))"
  by (auto simp: downloadFile_def Let_def split: sum.splits if_splits)

text \<open>
  Claim C10. Whenever \<open>downloadFile\<close> returns a file, its MIME type is one of seven
  values, the six supported types and \<open>application/octet-stream\<close>; two downloads whose
  file names agree up to the case of their letters resolve the same type; and each type
  is resolved exactly for the names whose lowered form ends with its suffix,
  \<open>application/octet-stream\<close> exactly when none of the seven suffixes matches.
\<close>

theorem C10_mimeType_from_suffix:
  assumes "downloadFile w = Inr f"
  shows "mimeType f \<in> set (supportedMimeTypes @ [''application/octet-stream'']) \<and>
    distinct (supportedMimeTypes @ [''application/octet-stream'']) \<and>
    length (supportedMimeTypes @ [''application/octet-stream'']) = 7 \<and>
    (\<forall>w' f'. downloadFile w' = Inr f' \<and> toLowerCase (fileName f') = toLowerCase (fileName f)
       \<longrightarrow> mimeType f' = mimeType f) \<and>
    (mimeType f = ''application/pdf'') = endsWith (toLowerCase (fileName f)) ''.pdf'' \<and>
    (mimeType f = ''application/vnd.openxmlformats-officedocument.wordprocessingml.document'') =
       endsWith (toLowerCase (fileName f)) ''.docx'' \<and>
    (mimeType f = ''application/msword'') = endsWith (toLowerCase (fileName f)) ''.doc'' \<and>
    (mimeType f = ''image/png'') = endsWith (toLowerCase (fileName f)) ''.png'' \<and>
    (mimeType f = ''image/jpeg'') =
       (endsWith (toLowerCase (fileName f)) ''.jpg'' \<or>
        endsWith (toLowerCase (fileName f)) ''.jpeg'') \<and>
    (mimeType f = ''image/gif'') = endsWith (toLowerCase (fileName f)) ''.gif'' \<and>
    (mimeType f = ''application/octet-stream'') =
       (\<not> (\<exists>suffix \<in> set knownSuffixes. endsWith (toLowerCase (fileName f)) suffix))"
proof -
  have m: "mimeType f = mimeTypeOfLowerName (toLowerCase (fileName f))"
    using assms by (rule downloadFile_mimeType)
  have same: "\<forall>w' f'. downloadFile w' = Inr f' \<and>
      toLowerCase (fileName f') = toLowerCase (fileName f) \<longrightarrow> mimeType f' = mimeType f"
    using m downloadFile_mimeType by metis
  have d: "distinct (supportedMimeTypes @ [''application/octet-stream''])"
    "length (supportedMimeTypes @ [''application/octet-stream'']) = 7"
    by (simp_all add: supportedMimeTypes_def)
  show ?thesis
    unfolding m using mimeType_known[of "toLowerCase (fileName f)"] d same
      mimeType_by_suffix[of "toLowerCase (fileName f)"]
    unfolding m by blast
qed

theorem C10_witness:
  "downloadFile (exampleWorld (Some ''guid'') (Some ''Report.PDF'')) =
     Inr \<lparr>blob = [97, 98, 99], fileName = ''Report.PDF'', mimeType = ''application/pdf''\<rparr> \<and>
   endsWith (toLowerCase ''Report.PDF'') ''.pdf'' \<and>
   ''application/pdf'' \<in> set (supportedMimeTypes @ [''application/octet-stream''])"
proof -
  have h: "downloadFile (exampleWorld (Some ''guid'') (Some ''Report.PDF'')) =
     Inr \<lparr>blob = [97, 98, 99], fileName = ''Report.PDF'', mimeType = ''application/pdf''\<rparr>"
    by (simp add: downloadFile_def exampleWorld_def Let_def toLowerCase_def toLowerChar_def
        mimeTypeOfLowerName_def endsWith_def)
  show ?thesis using h C10_mimeType_from_suffix[OF h] by simp
qed

section \<open>The attachment check\<close>

lemma hasPreviewable_unsupported:
  assumes "fileNameColumn r = Some (base @ ''.'' @ ext)"
    and "CHR ''.'' \<notin> set ext"
    and "toLowerCase ext \<notin> set supportedExtensions"
  shows "hasPreviewableAttachment (Inr r) = Inr False"
proof -
  have dot: "lastIndexOf (base @ CHR ''.'' # ext) CHR ''.'' = int (length base)"
    using assms(2) by (rule lastIndexOf_last)
  have sub: "substring (base @ CHR ''.'' # ext) (int (length base) + 1) = ext"
    by (simp add: substring_def nat_add_distrib)
  show ?thesis
    using assms(1,3) dot sub by (simp add: hasPreviewableAttachment_def Let_def)
qed

text \<open>
  Claim C9. When the file column holds a file reference and the name column is missing
  or empty, \<open>hasPreviewableAttachment\<close> returns true; no extension is looked at.
\<close>

theorem C9_file_without_name_is_previewable:
  assumes "\<not> falsy (fileRef r)"
    and "fileNameColumn r = None \<or> fileNameColumn r = Some []"
  shows "hasPreviewableAttachment (Inr r) = Inr True"
  using assms by (auto simp: hasPreviewableAttachment_def)

theorem C9_witness:
  "\<not> falsy (fileRef \<lparr>fileRef = Some ''guid'', fileNameColumn = None\<rparr>) \<and>
   hasPreviewableAttachment (Inr \<lparr>fileRef = Some ''guid'', fileNameColumn = None\<rparr>) = Inr True \<and>
   hasPreviewableAttachment (Inr \<lparr>fileRef = Some ''guid'', fileNameColumn = Some []\<rparr>) = Inr True"
proof -
  have h: "\<not> falsy (fileRef \<lparr>fileRef = Some ''guid'', fileNameColumn = None\<rparr>)"
    "\<not> falsy (fileRef \<lparr>fileRef = Some ''guid'', fileNameColumn = Some []\<rparr>)"
    by (simp_all add: falsy_def)
  show ?thesis
    using h
      C9_file_without_name_is_previewable
        [of "\<lparr>fileRef = Some ''guid'', fileNameColumn = None\<rparr>"]
      C9_file_without_name_is_previewable
        [of "\<lparr>fileRef = Some ''guid'', fileNameColumn = Some []\<rparr>"]
    by simp
qed

section \<open>The branches of the dispatcher\<close>

text \<open>
  Claim C7, as the source has it. A legacy \<open>.doc\<close> file is dispatched to a block of its
  own, which is none of the PDF, DOCX, image and fallback blocks.
\<close>

theorem C7_legacy_doc_counterexample:
  "renderBranch \<lparr>blob = [], fileName = ''memo.doc'', mimeType = ''application/msword''\<rparr>
     \<notin> {PdfBranch, DocxBranch, ImageBranch, FallbackBranch}"
  by (simp add: renderBranch_def Let_def toLowerCase_def toLowerChar_def endsWith_def
      startsWith_def)

text \<open>
  Claim C7, amended. The dispatcher selects exactly one of five blocks, tested in this
  order: PDF (the MIME type is \<open>application/pdf\<close> or the name ends with \<open>.pdf\<close>), image
  (the MIME type starts with \<open>image/\<close>), DOCX (the name ends with \<open>.docx\<close>), the legacy
  \<open>.doc\<close> notice (the name ends with \<open>.doc\<close>), and the fallback for every other input.
\<close>

theorem C7_five_branches:
  "renderBranch file \<in> {PdfBranch, ImageBranch, DocxBranch, LegacyDocBranch, FallbackBranch} \<and>
   (renderBranch file = PdfBranch) =
     (toLowerCase (mimeType file) = ''application/pdf'' \<or>
      endsWith (toLowerCase (fileName file)) ''.pdf'') \<and>
   (renderBranch file = ImageBranch) =
     (renderBranch file \<noteq> PdfBranch \<and> startsWith (toLowerCase (mimeType file)) ''image/'') \<and>
   (renderBranch file = DocxBranch) =
     (renderBranch file \<notin> {PdfBranch, ImageBranch} \<and>
      endsWith (toLowerCase (fileName file)) ''.docx'') \<and>
   (renderBranch file = LegacyDocBranch) =
     (renderBranch file \<notin> {PdfBranch, ImageBranch} \<and>
      endsWith (toLowerCase (fileName file)) ''.doc'') \<and>
   (renderBranch file = FallbackBranch) =
     (renderBranch file \<notin> {PdfBranch, ImageBranch} \<and>
      \<not> endsWith (toLowerCase (fileName file)) ''.docx'' \<and>
      \<not> endsWith (toLowerCase (fileName file)) ''.doc'')"
  using suffix_docx_doc[of "toLowerCase (fileName file)"]
  by (cases "renderBranch file") (auto simp: renderBranch_def Let_def split: if_splits)

section \<open>The log of object URLs\<close>

lemma urlsOf_simps [simp]:
  "urlsOf k None = []" "urlsOf k (Some u) = [(k, u)]"
  by (simp_all add: urlsOf_def)

lemma atMostOneLive_count: "atMostOneLive evs \<Longrightarrow> liveCount k evs \<le> 1"
  by (cases evs; cases k) (simp_all add: liveCount_def)

lemma length_filter_filter_le: "length (filter P (filter Q xs)) \<le> length (filter P xs)"
  by (induction xs) auto

lemma liveCount_Revoked: "liveCount k (Revoked u # evs) \<le> liveCount k evs"
  unfolding liveCount_def liveUrls.simps by (rule length_filter_filter_le)

lemma atMostOneLive_Revoked: "atMostOneLive evs \<Longrightarrow> atMostOneLive (Revoked u # evs)"
proof -
  assume a: "atMostOneLive evs"
  have "liveCount FileUrl (Revoked u # evs) \<le> 1" "liveCount WorkerUrl (Revoked u # evs) \<le> 1"
    using atMostOneLive_count[OF a, of FileUrl] atMostOneLive_count[OF a, of WorkerUrl]
      liveCount_Revoked[of FileUrl u evs] liveCount_Revoked[of WorkerUrl u evs]
    by linarith+
  with a show ?thesis by simp
qed

lemma atMostOneLive_Created:
  "atMostOneLive evs \<Longrightarrow> liveCount k evs = 0 \<Longrightarrow> atMostOneLive (Created k u # evs)"
  using atMostOneLive_count[of evs]
  by (cases k) (auto simp: liveCount_def)

section \<open>What each method of the modal control leaves alone\<close>

lemma createObjectURL_frame [simp]:
  "currentFileName (snd (createObjectURL k s)) = currentFileName s"
  "currentFileUrl (snd (createObjectURL k s)) = currentFileUrl s"
  "zoomLevel (snd (createObjectURL k s)) = zoomLevel s"
  "control.more (snd (createObjectURL k s)) = control.more s"
  by (simp_all add: createObjectURL_def)

lemma createObjectURL_modal_fields [simp]:
  "alerts (snd (createObjectURL k s)) = alerts s"
  "modal (snd (createObjectURL k s)) = modal s"
  by (simp_all add: createObjectURL_def)

lemma cleanupFileUrl_modal_frame [simp]:
  "currentFileUrl (cleanupFileUrl s) = None"
  "zoomLevel (cleanupFileUrl s) = zoomLevel s"
  "nextUrl (cleanupFileUrl s) = nextUrl s"
  "ctx (cleanupFileUrl s) = ctx s"
  "currentFileName (cleanupFileUrl s) = currentFileName s"
  "control.more (cleanupFileUrl s) = control.more s"
  by (simp_all add: cleanupFileUrl_def revokeObjectURL_def split: option.splits)

lemma cleanupFileUrl_modal_fields [simp]:
  "modal (cleanupFileUrl s) = modal s"
  "alerts (cleanupFileUrl s) = alerts s"
  "previewDisabled (cleanupFileUrl s) = previewDisabled s"
  "fileLabel (cleanupFileUrl s) = fileLabel s"
  by (simp_all add: cleanupFileUrl_def revokeObjectURL_def split: option.splits)

lemma cleanupFileUrl_log:
  "urlLog (cleanupFileUrl s) =
     (case currentFileUrl s of None \<Rightarrow> urlLog s | Some u \<Rightarrow> Revoked u # urlLog s)"
  by (simp add: cleanupFileUrl_def revokeObjectURL_def split: option.splits)

lemma cleanupFileUrl_atMostOneLive:
  "atMostOneLive (urlLog s) \<Longrightarrow> atMostOneLive (urlLog (cleanupFileUrl s))"
  by (cases "currentFileUrl s")
     (simp_all add: cleanupFileUrl_log atMostOneLive_Revoked del: atMostOneLive.simps)

lemma applyZoom_frame [simp]:
  "urlLog (applyZoom z s) = urlLog s"
  "currentFileUrl (applyZoom z s) = currentFileUrl s"
  "alerts (applyZoom z s) = alerts s"
  "(modal (applyZoom z s) = None) = (modal s = None)"
  by (simp_all add: applyZoom_def Let_def split: option.splits)

lemma setChildren_frame [simp]:
  "urlLog (setChildren cs s) = urlLog s"
  "currentFileUrl (setChildren cs s) = currentFileUrl s"
  "zoomLevel (setChildren cs s) = zoomLevel s"
  "alerts (setChildren cs s) = alerts s"
  "appliedScale (setChildren cs s) = appliedScale s"
  "(modal (setChildren cs s) = None) = (modal s = None)"
  by (simp_all add: setChildren_def appliedScale_def split: option.splits)

lemma renderFilePreview_frame [simp]:
  "urlLog (snd (renderFilePreview w file s)) = urlLog s"
  "currentFileUrl (snd (renderFilePreview w file s)) = currentFileUrl s"
  "zoomLevel (snd (renderFilePreview w file s)) = zoomLevel s"
  "alerts (snd (renderFilePreview w file s)) = alerts s"
  "appliedScale (snd (renderFilePreview w file s)) = appliedScale s"
  "(modal (snd (renderFilePreview w file s)) = None) = (modal s = None)"
  by (cases "modal s"; cases "renderBranch file"; cases "docxRender w";
      simp add: renderFilePreview_def)+

lemma destroyModal_frame [simp]:
  "modal (destroyModal s) = None"
  "currentFileUrl (destroyModal s) = None"
  "zoomLevel (destroyModal s) = zoomLevel s"
  "alerts (destroyModal s) = alerts s"
  by (simp_all add: destroyModal_def)

lemma openModal_eq:
  "openModal s =
     applyZoom 1
       ((destroyModal s)\<lparr>zoomLevel := 1,
          modal := Some \<lparr>title = titleOf (currentFileName s),
                         downloadButton = enableDownload (ctx s),
                         bodyWrapper = \<lparr>transform = None, children = []\<rparr>\<rparr>\<rparr>)"
  by (simp add: openModal_def Let_def destroyModal_def)

lemma openModal_frame [simp]:
  "currentFileUrl (openModal s) = None"
  "alerts (openModal s) = alerts s"
  "modal (openModal s) \<noteq> None"
  by (simp_all add: openModal_eq)

lemma updateView_frame [simp]:
  "urlLog (updateView c w s) = urlLog s"
  "currentFileUrl (updateView c w s) = currentFileUrl s"
  "zoomLevel (updateView c w s) = zoomLevel s"
  "modal (updateView c w s) = modal s"
  "alerts (updateView c w s) = alerts s"
  by (simp_all add: updateView_def checkAttachmentAndUpdateUI_def split: sum.splits)

lemma onPreviewClick_try_eq:
  "onPreviewClick_try w s =
     (case downloadFile w of
        Inl err \<Rightarrow> (Some err, s)
      | Inr file \<Rightarrow>
          renderFilePreview w file
            (openModal
               ((snd (createObjectURL FileUrl
                        (cleanupFileUrl
                           (s\<lparr>currentFileName := Some (fileName file),
                               currentMimeType := Some (mimeType file)\<rparr>))))
                \<lparr>currentFileUrl :=
                   Some (fst (createObjectURL FileUrl
                                (cleanupFileUrl
                                   (s\<lparr>currentFileName := Some (fileName file),
                                       currentMimeType := Some (mimeType file)\<rparr>))))\<rparr>)))"
  by (simp add: onPreviewClick_try_def Let_def split_beta split: sum.splits)


section \<open>The invariants hold in the modal control\<close>

lemma modal_url_inv_cleanup:
  "modal_url_inv s \<Longrightarrow> modal_url_inv (cleanupFileUrl s) \<and> liveUrls (urlLog (cleanupFileUrl s)) = []"
  by (cases "currentFileUrl s")
     (simp_all add: modal_url_inv_def atMostOneLive_Revoked cleanupFileUrl_log
        del: atMostOneLive.simps)

lemma modal_url_inv_create:
  assumes "modal_url_inv s" "currentFileUrl s = None"
  shows "modal_url_inv ((snd (createObjectURL FileUrl s))
           \<lparr>currentFileUrl := Some (fst (createObjectURL FileUrl s))\<rparr>)"
proof -
  have "liveCount FileUrl (urlLog s) = 0"
    using assms by (simp add: modal_url_inv_def liveCount_def)
  then have "atMostOneLive (Created FileUrl (nextUrl s) # urlLog s)"
    using assms(1) atMostOneLive_Created by (simp add: modal_url_inv_def)
  then show ?thesis
    using assms by (simp add: modal_url_inv_def createObjectURL_def)
qed

lemma modal_url_inv_cong:
  "urlLog s' = urlLog s \<Longrightarrow> currentFileUrl s' = currentFileUrl s \<Longrightarrow>
   modal_url_inv s \<Longrightarrow> modal_url_inv s'"
  by (simp add: modal_url_inv_def)

lemma modal_url_inv_destroyModal:
  "modal_url_inv s \<Longrightarrow>
     modal_url_inv (destroyModal s) \<and> liveUrls (urlLog (destroyModal s)) = []"
proof -
  assume "modal_url_inv s"
  then have "modal_url_inv (s\<lparr>modal := None\<rparr>)"
    by (simp add: modal_url_inv_def)
  then show ?thesis
    unfolding destroyModal_def by (rule modal_url_inv_cleanup)
qed

lemma modal_zoom_inv_applyZoom: "modal_zoom_inv s \<Longrightarrow> modal_zoom_inv (applyZoom z s)"
  by (auto simp: modal_zoom_inv_def applyZoom_def appliedScale_def Let_def
      split: option.splits)

lemma modal_zoom_inv_destroyModal: "modal_zoom_inv s \<Longrightarrow> modal_zoom_inv (destroyModal s)"
  by (simp add: modal_zoom_inv_def appliedScale_def)

lemma modal_url_inv_openModal:
  "modal_url_inv s \<Longrightarrow> modal_url_inv (openModal s) \<and> liveUrls (urlLog (openModal s)) = []"
  using modal_url_inv_destroyModal[of s]
  by (simp add: openModal_eq modal_url_inv_def)

lemma modal_zoom_inv_openModal: "modal_zoom_inv (openModal s)"
  by (simp add: openModal_eq modal_zoom_inv_def applyZoom_def appliedScale_def Let_def)

lemma modal_url_inv_try:
  assumes "modal_url_inv s"
  shows "modal_url_inv (snd (onPreviewClick_try w s))"
proof (cases "downloadFile w")
  case (Inl err)
  then show ?thesis using assms by (simp add: onPreviewClick_try_eq)
next
  case (Inr f)
  let ?s1 = "s\<lparr>currentFileName := Some (fileName f),
                currentMimeType := Some (mimeType f)\<rparr>"
  let ?s2 = "cleanupFileUrl ?s1"
  let ?s4 = "(snd (createObjectURL FileUrl ?s2))
               \<lparr>currentFileUrl := Some (fst (createObjectURL FileUrl ?s2))\<rparr>"
  have "modal_url_inv ?s1" using assms by (simp add: modal_url_inv_def)
  then have "modal_url_inv ?s2" using modal_url_inv_cleanup by blast
  then have "modal_url_inv ?s4" by (rule modal_url_inv_create) simp
  then have "modal_url_inv (openModal ?s4)" using modal_url_inv_openModal by blast
  then have "modal_url_inv (snd (renderFilePreview w f (openModal ?s4)))"
    by (rule modal_url_inv_cong[rotated 2]) simp_all
  then show ?thesis using Inr by (simp add: onPreviewClick_try_eq)
qed

lemma modal_zoom_inv_try:
  assumes "modal_zoom_inv s"
  shows "modal_zoom_inv (snd (onPreviewClick_try w s))"
proof (cases "downloadFile w")
  case (Inl err)
  then show ?thesis using assms by (simp add: onPreviewClick_try_eq)
next
  case (Inr f)
  have "modal_zoom_inv (snd (renderFilePreview w f (openModal t)))" for t
    using modal_zoom_inv_openModal[of t] by (simp add: modal_zoom_inv_def)
  then show ?thesis using Inr by (simp add: onPreviewClick_try_eq)
qed

lemma modal_inv_alerts:
  "modal_url_inv (s\<lparr>alerts := a\<rparr>) = modal_url_inv s"
  "modal_zoom_inv (s\<lparr>alerts := a\<rparr>) = modal_zoom_inv s"
  by (simp_all add: modal_url_inv_def modal_zoom_inv_def appliedScale_def)

lemma modal_url_inv_onPreviewClick:
  "modal_url_inv s \<Longrightarrow> modal_url_inv (onPreviewClick w s)"
  using modal_url_inv_try[of s w]
  by (cases "onPreviewClick_try w s")
     (auto simp: onPreviewClick_def modal_inv_alerts split: option.splits)

lemma modal_zoom_inv_onPreviewClick:
  "modal_zoom_inv s \<Longrightarrow> modal_zoom_inv (onPreviewClick w s)"
  using modal_zoom_inv_try[of s w]
  by (cases "onPreviewClick_try w s")
     (auto simp: onPreviewClick_def modal_inv_alerts split: option.splits)

lemma modal_url_inv_step: "modal_url_inv s \<Longrightarrow> modal_url_inv (modal_step s ev)"
proof (cases ev)
  case (UpdateView c w)
  assume "modal_url_inv s"
  then show ?thesis using UpdateView by (simp add: modal_url_inv_def)
next
  case (PreviewClick w)
  assume "modal_url_inv s"
  then show ?thesis using PreviewClick by (simp add: modal_url_inv_onPreviewClick)
next
  case ZoomOut
  assume "modal_url_inv s"
  then show ?thesis using ZoomOut by (simp add: modal_url_inv_def)
next
  case ZoomIn
  assume "modal_url_inv s"
  then show ?thesis using ZoomIn by (simp add: modal_url_inv_def)
next
  case ZoomReset
  assume "modal_url_inv s"
  then show ?thesis using ZoomReset by (simp add: modal_url_inv_def)
next
  case CloseModal
  assume "modal_url_inv s"
  then show ?thesis using CloseModal by (simp add: modal_url_inv_destroyModal)
next
  case Destroy
  assume "modal_url_inv s"
  then have "modal_url_inv (cleanupFileUrl s)" using modal_url_inv_cleanup by blast
  then show ?thesis using Destroy by (simp add: destroy_def modal_url_inv_destroyModal)
qed

lemma modal_zoom_inv_step: "modal_zoom_inv s \<Longrightarrow> modal_zoom_inv (modal_step s ev)"
proof (cases ev)
  case (UpdateView c w)
  assume "modal_zoom_inv s"
  then show ?thesis using UpdateView by (simp add: modal_zoom_inv_def appliedScale_def)
next
  case (PreviewClick w)
  assume "modal_zoom_inv s"
  then show ?thesis using PreviewClick by (simp add: modal_zoom_inv_onPreviewClick)
next
  case Destroy
  assume "modal_zoom_inv s"
  then have "modal_zoom_inv (cleanupFileUrl s)"
    by (simp add: modal_zoom_inv_def appliedScale_def)
  then show ?thesis using Destroy by (simp add: destroy_def modal_zoom_inv_destroyModal)
qed (simp_all add: modal_zoom_inv_applyZoom modal_zoom_inv_destroyModal)

lemma modal_inv_foldl:
  "modal_url_inv s \<Longrightarrow> modal_url_inv (foldl modal_step s evs)"
  "modal_zoom_inv s \<Longrightarrow> modal_zoom_inv (foldl modal_step s evs)"
  by (induction evs arbitrary: s) (simp_all add: modal_url_inv_step modal_zoom_inv_step)

lemma modal_inv_run: "modal_url_inv (run_modal c evs)" "modal_zoom_inv (run_modal c evs)"
  unfolding run_modal_def
  by (rule modal_inv_foldl; simp add: modal_url_inv_def modal_zoom_inv_def init_def
      appliedScale_def)+

section \<open>What each method of the inline control leaves alone\<close>

lemma createObjectURL_inline_fields [simp]:
  "toolbarTitle (snd (createObjectURL k s)) = toolbarTitle s"
  "zoomWrapper (snd (createObjectURL k s)) = zoomWrapper s"
  "pdfWorkerUrl (snd (createObjectURL k s)) = pdfWorkerUrl s"
  "pdfWorkerUrlPromise (snd (createObjectURL k s)) = pdfWorkerUrlPromise s"
  by (simp_all add: createObjectURL_def)

lemma cleanupFileUrl_inline_fields [simp]:
  "zoomWrapper (cleanupFileUrl s) = zoomWrapper s"
  "toolbarTitle (cleanupFileUrl s) = toolbarTitle s"
  "pdfWorkerUrl (cleanupFileUrl s) = pdfWorkerUrl s"
  "pdfWorkerUrlPromise (cleanupFileUrl s) = pdfWorkerUrlPromise s"
  by (simp_all add: cleanupFileUrl_def revokeObjectURL_def split: option.splits)

lemma applyZoom_inline_frame [simp]:
  "urlLog (applyZoom_inline z s) = urlLog s"
  "currentFileUrl (applyZoom_inline z s) = currentFileUrl s"
  "pdfWorkerUrl (applyZoom_inline z s) = pdfWorkerUrl s"
  "pdfWorkerUrlPromise (applyZoom_inline z s) = pdfWorkerUrlPromise s"
  "nextUrl (applyZoom_inline z s) = nextUrl s"
  by (simp_all add: applyZoom_inline_def Let_def split: option.splits)

lemma setChildren_inline_frame [simp]:
  "urlLog (setChildren_inline cs s) = urlLog s"
  "currentFileUrl (setChildren_inline cs s) = currentFileUrl s"
  "pdfWorkerUrl (setChildren_inline cs s) = pdfWorkerUrl s"
  "pdfWorkerUrlPromise (setChildren_inline cs s) = pdfWorkerUrlPromise s"
  "nextUrl (setChildren_inline cs s) = nextUrl s"
  "zoomLevel (setChildren_inline cs s) = zoomLevel s"
  "appliedScale_inline (setChildren_inline cs s) = appliedScale_inline s"
  "(zoomWrapper (setChildren_inline cs s) = None) = (zoomWrapper s = None)"
  by (simp_all add: setChildren_inline_def appliedScale_inline_def split: option.splits)

lemma setInfoMessage_frame [simp]:
  "urlLog (setInfoMessage msg s) = urlLog s"
  "currentFileUrl (setInfoMessage msg s) = currentFileUrl s"
  "pdfWorkerUrl (setInfoMessage msg s) = pdfWorkerUrl s"
  "pdfWorkerUrlPromise (setInfoMessage msg s) = pdfWorkerUrlPromise s"
  "nextUrl (setInfoMessage msg s) = nextUrl s"
  "zoomLevel (setInfoMessage msg s) = zoomLevel s"
  "appliedScale_inline (setInfoMessage msg s) = appliedScale_inline s"
  "(zoomWrapper (setInfoMessage msg s) = None) = (zoomWrapper s = None)"
  by (simp_all add: setInfoMessage_def appliedScale_inline_def split: option.splits)

lemma ensurePdfWorkerUrl_settled:
  "pdfWorkerUrlPromise s \<noteq> None \<Longrightarrow> snd (ensurePdfWorkerUrl w s) = s"
  by (auto simp: ensurePdfWorkerUrl_def)

lemma ensurePdfWorkerUrl_wrapper [simp]:
  "zoomWrapper (snd (ensurePdfWorkerUrl w s)) = zoomWrapper s"
  by (cases "pdfWorkerUrlPromise s"; cases "workerResource w")
     (auto simp: ensurePdfWorkerUrl_def Let_def split_beta split: sum.splits)

lemma renderFilePreview_inline_frame:
  assumes "pdfWorkerUrlPromise s \<noteq> None"
  shows "urlLog (snd (renderFilePreview_inline w file s)) = urlLog s"
    and "currentFileUrl (snd (renderFilePreview_inline w file s)) = currentFileUrl s"
    and "pdfWorkerUrl (snd (renderFilePreview_inline w file s)) = pdfWorkerUrl s"
    and "pdfWorkerUrlPromise (snd (renderFilePreview_inline w file s)) = pdfWorkerUrlPromise s"
    and "nextUrl (snd (renderFilePreview_inline w file s)) = nextUrl s"
    and "zoomLevel (snd (renderFilePreview_inline w file s)) = zoomLevel s"
    and "appliedScale_inline (snd (renderFilePreview_inline w file s)) = appliedScale_inline s"
    and "(zoomWrapper (snd (renderFilePreview_inline w file s)) = None) = (zoomWrapper s = None)"
  using ensurePdfWorkerUrl_settled[OF assms, of w]
  by (cases "zoomWrapper s"; cases "renderBranch file"; cases "docxRender w";
      simp add: renderFilePreview_inline_def split_beta)+


lemma autoLoadPreview_try_eq:
  "autoLoadPreview_try w s =
     (case hasPreviewableAttachment (checkRecord w) of
        Inl err \<Rightarrow> (Some err, s)
      | Inr hasPreview \<Rightarrow>
          if \<not> hasPreview then (None, setInfoMessage noPreviewableFile s)
          else
            (case downloadFile w of
               Inl err \<Rightarrow> (Some err, s)
             | Inr file \<Rightarrow>
                 renderFilePreview_inline w file
                   (((snd (createObjectURL FileUrl
                             (cleanupFileUrl
                                (s\<lparr>currentFileName := Some (fileName file),
                                    currentMimeType := Some (mimeType file)\<rparr>))))
                     \<lparr>currentFileUrl :=
                        Some (fst (createObjectURL FileUrl
                                     (cleanupFileUrl
                                        (s\<lparr>currentFileName := Some (fileName file),
                                            currentMimeType := Some (mimeType file)\<rparr>))))\<rparr>)
                    \<lparr>toolbarTitle :=
                       (case toolbarTitle s of
                          None \<Rightarrow> None
                        | Some t \<Rightarrow> Some (titleOf (Some (fileName file))))\<rparr>)))"
  by (simp add: autoLoadPreview_try_def Let_def split_beta split: sum.splits
      cong: option.case_cong)


section \<open>The invariants hold in the inline control\<close>

lemma inline_url_inv_cleanup:
  "inline_url_inv s \<Longrightarrow> inline_url_inv (cleanupFileUrl s)"
  by (cases "currentFileUrl s"; cases "pdfWorkerUrl s")
     (auto simp: inline_url_inv_def atMostOneLive_Revoked cleanupFileUrl_log
        simp del: atMostOneLive.simps)

lemma inline_url_inv_create:
  assumes "inline_url_inv s" "currentFileUrl s = None"
  shows "inline_url_inv ((snd (createObjectURL FileUrl s))
           \<lparr>currentFileUrl := Some (fst (createObjectURL FileUrl s))\<rparr>)"
proof -
  have "liveCount FileUrl (urlLog s) = 0"
    using assms by (cases "pdfWorkerUrl s") (simp_all add: inline_url_inv_def liveCount_def)
  then have "atMostOneLive (Created FileUrl (nextUrl s) # urlLog s)"
    using assms(1) atMostOneLive_Created by (simp add: inline_url_inv_def)
  then show ?thesis
    using assms by (auto simp: inline_url_inv_def createObjectURL_def)
qed

lemma inline_url_inv_cong:
  "urlLog s' = urlLog s \<Longrightarrow> currentFileUrl s' = currentFileUrl s \<Longrightarrow>
   pdfWorkerUrl s' = pdfWorkerUrl s \<Longrightarrow> pdfWorkerUrlPromise s' = pdfWorkerUrlPromise s \<Longrightarrow>
   nextUrl s' = nextUrl s \<Longrightarrow> inline_url_inv s \<Longrightarrow> inline_url_inv s'"
  by (simp add: inline_url_inv_def)

lemma inline_zoom_inv_cong:
  "zoomLevel s' = zoomLevel s \<Longrightarrow> appliedScale_inline s' = appliedScale_inline s \<Longrightarrow>
   (zoomWrapper s' = None) = (zoomWrapper s = None) \<Longrightarrow>
   inline_zoom_inv s \<Longrightarrow> inline_zoom_inv s'"
  by (simp add: inline_zoom_inv_def)

lemma inline_url_inv_setInfoMessage:
  "inline_url_inv s \<Longrightarrow> inline_url_inv (setInfoMessage msg s)"
  by (simp add: inline_url_inv_def)

lemma inline_zoom_inv_setInfoMessage:
  "inline_zoom_inv s \<Longrightarrow> inline_zoom_inv (setInfoMessage msg s)"
  by (simp add: inline_zoom_inv_def)

lemma inline_url_inv_try:
  assumes "inline_url_inv s"
  shows "inline_url_inv (snd (autoLoadPreview_try w s))"
proof (cases "hasPreviewableAttachment (checkRecord w)")
  case (Inl err)
  then show ?thesis using assms by (simp add: autoLoadPreview_try_eq)
next
  case (Inr hasPreview)
  show ?thesis
  proof (cases "downloadFile w")
    case (Inl err)
    then show ?thesis
      using assms Inr by (auto simp: autoLoadPreview_try_eq inline_url_inv_def)
  next
    case (Inr f)
    let ?s1 = "s\<lparr>currentFileName := Some (fileName f),
                  currentMimeType := Some (mimeType f)\<rparr>"
    let ?s2 = "cleanupFileUrl ?s1"
    let ?s4 = "(snd (createObjectURL FileUrl ?s2))
                 \<lparr>currentFileUrl := Some (fst (createObjectURL FileUrl ?s2))\<rparr>"
    let ?s5 = "?s4\<lparr>toolbarTitle :=
                 (case toolbarTitle s of
                    None \<Rightarrow> None
                  | Some t \<Rightarrow> Some (titleOf (Some (fileName f))))\<rparr>"
    have "inline_url_inv ?s1" using assms by (simp add: inline_url_inv_def)
    then have "inline_url_inv ?s2" by (rule inline_url_inv_cleanup)
    then have "inline_url_inv ?s4" by (rule inline_url_inv_create) simp
    then have s5: "inline_url_inv ?s5" by (simp add: inline_url_inv_def)
    then have p: "pdfWorkerUrlPromise ?s5 \<noteq> None" by (simp add: inline_url_inv_def)
    have "inline_url_inv (snd (renderFilePreview_inline w f ?s5))"
      using renderFilePreview_inline_frame[OF p, of w f] s5
      by (simp add: inline_url_inv_def)
    then show ?thesis
      using assms Inr \<open>hasPreviewableAttachment (checkRecord w) = Inr hasPreview\<close>
      by (auto simp: autoLoadPreview_try_eq inline_url_inv_def)
  qed
qed

lemma inline_zoom_inv_try:
  assumes "inline_zoom_inv s" "pdfWorkerUrlPromise s \<noteq> None"
  shows "inline_zoom_inv (snd (autoLoadPreview_try w s))"
proof (cases "hasPreviewableAttachment (checkRecord w)")
  case (Inl err)
  then show ?thesis using assms by (simp add: autoLoadPreview_try_eq)
next
  case (Inr hasPreview)
  note check = this
  show ?thesis
  proof (cases hasPreview)
    case False
    then show ?thesis
      using assms(1) check
      by (simp add: autoLoadPreview_try_eq inline_zoom_inv_setInfoMessage)
  next
    case True
    note yes = this
    show ?thesis
    proof (cases "downloadFile w")
      case (Inl err)
      then show ?thesis
        using assms(1) check yes by (simp add: autoLoadPreview_try_eq)
    next
      case (Inr f)
      let ?s5 = "((snd (createObjectURL FileUrl
                         (cleanupFileUrl
                            (s\<lparr>currentFileName := Some (fileName f),
                                currentMimeType := Some (mimeType f)\<rparr>))))
                   \<lparr>currentFileUrl :=
                      Some (fst (createObjectURL FileUrl
                                   (cleanupFileUrl
                                      (s\<lparr>currentFileName := Some (fileName f),
                                          currentMimeType := Some (mimeType f)\<rparr>))))\<rparr>)
                  \<lparr>toolbarTitle :=
                     (case toolbarTitle s of
                        None \<Rightarrow> None
                      | Some t \<Rightarrow> Some (titleOf (Some (fileName f))))\<rparr>"
      have p: "pdfWorkerUrlPromise ?s5 \<noteq> None" using assms(2) by simp
      have z: "inline_zoom_inv ?s5"
        using assms(1) by (simp add: inline_zoom_inv_def appliedScale_inline_def)
      have "inline_zoom_inv (snd (renderFilePreview_inline w f ?s5))"
        using renderFilePreview_inline_frame[OF p, of w f] z
        by (simp add: inline_zoom_inv_def)
      then show ?thesis
        using check yes Inr by (simp add: autoLoadPreview_try_eq)
    qed
  qed
qed

lemma inline_url_inv_autoLoadPreview:
  "inline_url_inv s \<Longrightarrow> inline_url_inv (autoLoadPreview w s)"
  using inline_url_inv_try[of s w]
  by (cases "autoLoadPreview_try w s")
     (auto simp: autoLoadPreview_def inline_url_inv_setInfoMessage split: option.splits)

lemma inline_zoom_inv_autoLoadPreview:
  "inline_zoom_inv s \<Longrightarrow> pdfWorkerUrlPromise s \<noteq> None \<Longrightarrow>
     inline_zoom_inv (autoLoadPreview w s)"
  using inline_zoom_inv_try[of s w]
  by (cases "autoLoadPreview_try w s")
     (auto simp: autoLoadPreview_def inline_zoom_inv_setInfoMessage split: option.splits)

lemma inline_url_inv_destroy:
  "inline_url_inv s \<Longrightarrow>
     inline_url_inv (destroy_inline s) \<and> liveUrls (urlLog (destroy_inline s)) = []"
proof -
  assume "inline_url_inv s"
  then have c: "inline_url_inv (cleanupFileUrl s)" by (rule inline_url_inv_cleanup)
  show ?thesis
    using c
    by (cases "pdfWorkerUrl s")
       (auto simp: destroy_inline_def Let_def inline_url_inv_def revokeObjectURL_def
          atMostOneLive_Revoked simp del: atMostOneLive.simps)
qed

lemma inline_zoom_inv_destroy: "inline_zoom_inv s \<Longrightarrow> inline_zoom_inv (destroy_inline s)"
  by (cases "pdfWorkerUrl s")
     (simp_all add: destroy_inline_def Let_def inline_zoom_inv_def revokeObjectURL_def
        appliedScale_inline_def)

lemma inline_zoom_inv_applyZoom:
  "inline_zoom_inv s \<Longrightarrow> inline_zoom_inv (applyZoom_inline z s)"
  by (auto simp: inline_zoom_inv_def applyZoom_inline_def appliedScale_inline_def Let_def
      split: option.splits)

lemma inline_inv_step: "inline_inv s \<Longrightarrow> inline_inv (inline_step s ev)"
proof (cases ev)
  case (InlineUpdateView c w)
  assume a: "inline_inv s"
  then have "inline_url_inv (s\<lparr>ctx := c\<rparr>)" "inline_zoom_inv (s\<lparr>ctx := c\<rparr>)"
    by (simp_all add: inline_inv_def inline_url_inv_def inline_zoom_inv_def
        appliedScale_inline_def)
  moreover from this have "pdfWorkerUrlPromise (s\<lparr>ctx := c\<rparr>) \<noteq> None"
    by (simp add: inline_url_inv_def)
  ultimately show ?thesis
    using InlineUpdateView
    by (simp add: inline_inv_def updateView_inline_def inline_url_inv_autoLoadPreview
        inline_zoom_inv_autoLoadPreview)
next
  case InlineZoomOut
  assume "inline_inv s"
  then show ?thesis
    using InlineZoomOut inline_zoom_inv_applyZoom[of s]
    by (simp add: inline_inv_def inline_url_inv_def)
next
  case InlineZoomIn
  assume "inline_inv s"
  then show ?thesis
    using InlineZoomIn inline_zoom_inv_applyZoom[of s]
    by (simp add: inline_inv_def inline_url_inv_def)
next
  case InlineZoomReset
  assume "inline_inv s"
  then show ?thesis
    using InlineZoomReset inline_zoom_inv_applyZoom[of s]
    by (simp add: inline_inv_def inline_url_inv_def)
next
  case InlineDestroy
  assume "inline_inv s"
  then show ?thesis
    using InlineDestroy inline_url_inv_destroy[of s] inline_zoom_inv_destroy[of s]
    by (simp add: inline_inv_def)
qed

lemma inline_inv_foldl: "inline_inv s \<Longrightarrow> inline_inv (foldl inline_step s evs)"
  by (induction evs arbitrary: s) (simp_all add: inline_inv_step)

lemma inline_inv_init: "inline_inv (init_inline c w)"
proof (cases "workerResource w")
  case None
  then show ?thesis
    by (simp add: inline_inv_def inline_url_inv_def inline_zoom_inv_def init_inline_def
        ensurePdfWorkerUrl_def applyZoom_inline_def appliedScale_inline_def Let_def)
next
  case (Some r)
  then show ?thesis
    by (cases r)
       (simp_all add: inline_inv_def inline_url_inv_def inline_zoom_inv_def init_inline_def
          ensurePdfWorkerUrl_def applyZoom_inline_def appliedScale_inline_def Let_def
          createObjectURL_def liveCount_def)
qed

lemma inline_inv_run: "inline_inv (run_inline c w evs)"
  unfolding run_inline_def by (rule inline_inv_foldl) (rule inline_inv_init)

section \<open>The invariants hold under interleaving\<close>

lemma checkAttachment_resume_frame [simp]:
  "urlLog (checkAttachment_resume w s) = urlLog s"
  "currentFileUrl (checkAttachment_resume w s) = currentFileUrl s"
  by (simp_all add: checkAttachment_resume_def split: sum.splits)

lemma onPreviewClick_catch_frame [simp]:
  "urlLog (onPreviewClick_catch err s) = urlLog s"
  "currentFileUrl (onPreviewClick_catch err s) = currentFileUrl s"
  by (simp_all add: onPreviewClick_catch_def)

lemma modal_url_inv_resume:
  "modal_url_inv s \<Longrightarrow> modal_url_inv (onPreviewClick_resume w s)"
  using modal_url_inv_try[of s w]
  by (cases "onPreviewClick_try w s")
     (auto simp: onPreviewClick_resume_def modal_url_inv_def split: option.splits)

lemma modal_url_inv_async_step:
  assumes "modal_url_inv (widget sys)"
  shows "modal_url_inv (widget (modal_async_step sys ev))"
proof (cases ev)
  case (CallUpdateView c)
  then show ?thesis using assms by (simp add: modal_url_inv_def Let_def)
next
  case ClickPreview
  then show ?thesis using assms by (simp add: modal_url_inv_def Let_def)
next
  case (ResumeModal i w)
  show ?thesis
  proof (cases "i < length (modalTasks sys)")
    case False
    then show ?thesis using assms ResumeModal by simp
  next
    case True
    then show ?thesis
      using assms ResumeModal modal_url_inv_resume[OF assms, of w]
      by (cases "modalTasks sys ! i") (simp_all add: modal_url_inv_def)
  qed
next
  case ClickZoomOut
  then show ?thesis using assms by (simp add: modal_url_inv_def)
next
  case ClickZoomIn
  then show ?thesis using assms by (simp add: modal_url_inv_def)
next
  case ClickZoomReset
  then show ?thesis using assms by (simp add: modal_url_inv_def)
next
  case ClickClose
  then show ?thesis using assms by (simp add: modal_url_inv_destroyModal)
next
  case CallDestroy
  have "modal_url_inv (cleanupFileUrl (widget sys))"
    using assms modal_url_inv_cleanup by blast
  then show ?thesis using CallDestroy by (simp add: destroy_def modal_url_inv_destroyModal)
qed

lemma modal_url_inv_async_foldl:
  "modal_url_inv (widget sys) \<Longrightarrow> modal_url_inv (widget (foldl modal_async_step sys evs))"
  by (induction evs arbitrary: sys) (simp_all add: modal_url_inv_async_step)

lemma modal_url_inv_async_run: "modal_url_inv (widget (run_modal_async c evs))"
  unfolding run_modal_async_def
  by (rule modal_url_inv_async_foldl) (simp add: modal_url_inv_def init_def)


lemma inline_async_inv_cong:
  "urlLog s' = urlLog s \<Longrightarrow> currentFileUrl s' = currentFileUrl s \<Longrightarrow>
   pdfWorkerUrl s' = pdfWorkerUrl s \<Longrightarrow> pdfWorkerUrlPromise s' = pdfWorkerUrlPromise s \<Longrightarrow>
   nextUrl s' = nextUrl s \<Longrightarrow> inline_async_inv s \<Longrightarrow> inline_async_inv s'"
  by (simp add: inline_async_inv_def)

lemma inline_async_inv_setInfoMessage:
  "inline_async_inv s \<Longrightarrow> inline_async_inv (setInfoMessage msg s)"
  by (rule inline_async_inv_cong[rotated 5]) simp_all

lemma inline_async_inv_catch:
  "inline_async_inv s \<Longrightarrow> inline_async_inv (autoLoadPreview_catch err s)"
  by (simp add: autoLoadPreview_catch_def inline_async_inv_setInfoMessage)

lemma inline_async_inv_applyZoom:
  "inline_async_inv s \<Longrightarrow> inline_async_inv (applyZoom_inline z s)"
  by (rule inline_async_inv_cong[rotated 5]) simp_all

lemma inline_async_inv_cleanup:
  assumes "inline_async_inv s"
  shows "inline_async_inv (cleanupFileUrl s)"
proof (cases "currentFileUrl s")
  case None
  then show ?thesis using assms by (simp add: cleanupFileUrl_def)
next
  case (Some u)
  have w: "pdfWorkerUrl s \<noteq> Some u" using assms Some by (simp add: inline_async_inv_def)
  have l: "set (liveUrls (urlLog s)) = {(FileUrl, u)} \<union> set (urlsOf WorkerUrl (pdfWorkerUrl s))"
    using assms Some by (simp add: inline_async_inv_def)
  have "set (liveUrls (Revoked u # urlLog s)) = set (urlsOf WorkerUrl (pdfWorkerUrl s))"
    using l w by (cases "pdfWorkerUrl s") auto
  moreover have "atMostOneLive (Revoked u # urlLog s)"
    using assms atMostOneLive_Revoked by (simp add: inline_async_inv_def)
  ultimately show ?thesis
    using assms Some
    by (simp add: inline_async_inv_def cleanupFileUrl_log del: atMostOneLive.simps liveUrls.simps)
qed

lemma liveCount_zero: "(\<forall>p \<in> set (liveUrls evs). fst p \<noteq> k) \<Longrightarrow> liveCount k evs = 0"
  by (simp add: liveCount_def filter_empty_conv)

lemma inline_async_inv_create:
  assumes "inline_async_inv s" "currentFileUrl s = None"
  shows "inline_async_inv ((snd (createObjectURL FileUrl s))
           \<lparr>currentFileUrl := Some (fst (createObjectURL FileUrl s))\<rparr>)"
proof -
  have "liveCount FileUrl (urlLog s) = 0"
    using assms by (cases "pdfWorkerUrl s") (auto simp: inline_async_inv_def intro!: liveCount_zero)
  then have "atMostOneLive (Created FileUrl (nextUrl s) # urlLog s)"
    using assms(1) atMostOneLive_Created by (simp add: inline_async_inv_def)
  then show ?thesis
    using assms
    by (cases "pdfWorkerUrl s")
       (auto simp: inline_async_inv_def createObjectURL_def simp del: atMostOneLive.simps)
qed

lemma inline_async_inv_callback:
  assumes "inline_async_inv s"
  shows "inline_async_inv (resourceCallback answer s)"
proof (cases "pdfWorkerUrlPromise s = Some Pending")
  case False
  then show ?thesis using assms by (simp add: resourceCallback_def)
next
  case True
  then have none: "pdfWorkerUrl s = None" using assms by (simp add: inline_async_inv_def)
  have "liveCount WorkerUrl (urlLog s) = 0"
    using assms none
    by (cases "currentFileUrl s") (auto simp: inline_async_inv_def intro!: liveCount_zero)
  then have a: "atMostOneLive (Created WorkerUrl (nextUrl s) # urlLog s)"
    using assms atMostOneLive_Created by (simp add: inline_async_inv_def)
  show ?thesis
  proof (cases answer)
    case None
    then show ?thesis using assms True by (simp add: resourceCallback_def inline_async_inv_def)
  next
    case (Some r)
    show ?thesis
    proof (cases r)
      case (Inl e)
      then show ?thesis
        using assms True Some by (simp add: resourceCallback_def inline_async_inv_def)
    next
      case (Inr byteChars)
      then show ?thesis
        using assms True Some none a
        by (cases "currentFileUrl s")
           (auto simp: resourceCallback_def inline_async_inv_def createObjectURL_def
              simp del: atMostOneLive.simps)
    qed
  qed
qed

lemma inline_async_inv_render:
  assumes "inline_async_inv s"
  shows "inline_async_inv
    (case renderFilePreview_inline w f s of
       (None, s') \<Rightarrow> s'
     | (Some err, s') \<Rightarrow> autoLoadPreview_catch err s')"
proof -
  have p: "pdfWorkerUrlPromise s \<noteq> None" using assms by (simp add: inline_async_inv_def)
  obtain e t where et: "renderFilePreview_inline w f s = (e, t)"
    by (cases "renderFilePreview_inline w f s") auto
  have "inline_async_inv t"
  proof (rule inline_async_inv_cong[OF _ _ _ _ _ assms])
    show "urlLog t = urlLog s"
      using renderFilePreview_inline_frame(1)[OF p, of w f] et by simp
    show "currentFileUrl t = currentFileUrl s"
      using renderFilePreview_inline_frame(2)[OF p, of w f] et by simp
    show "pdfWorkerUrl t = pdfWorkerUrl s"
      using renderFilePreview_inline_frame(3)[OF p, of w f] et by simp
    show "pdfWorkerUrlPromise t = pdfWorkerUrlPromise s"
      using renderFilePreview_inline_frame(4)[OF p, of w f] et by simp
    show "nextUrl t = nextUrl s"
      using renderFilePreview_inline_frame(5)[OF p, of w f] et by simp
  qed
  then show ?thesis
    using et by (cases e) (simp_all add: inline_async_inv_catch)
qed

lemma autoLoadPreview_download_eq:
  "autoLoadPreview_download w s =
     (case downloadFile w of
        Inl err \<Rightarrow> autoLoadPreview_catch err s
      | Inr f \<Rightarrow>
          (case renderFilePreview_inline w f
             (((snd (createObjectURL FileUrl
                       (cleanupFileUrl
                          (s\<lparr>currentFileName := Some (fileName f),
                              currentMimeType := Some (mimeType f)\<rparr>))))
               \<lparr>currentFileUrl :=
                  Some (fst (createObjectURL FileUrl
                               (cleanupFileUrl
                                  (s\<lparr>currentFileName := Some (fileName f),
                                      currentMimeType := Some (mimeType f)\<rparr>))))\<rparr>)
              \<lparr>toolbarTitle :=
                 (case toolbarTitle s of
                    None \<Rightarrow> None
                  | Some t \<Rightarrow> Some (titleOf (Some (fileName f))))\<rparr>) of
             (None, s') \<Rightarrow> s'
           | (Some err, s') \<Rightarrow> autoLoadPreview_catch err s'))"
  by (simp add: autoLoadPreview_download_def Let_def split_beta split: sum.splits
      cong: option.case_cong)

lemma inline_async_inv_download:
  assumes "inline_async_inv s"
  shows "inline_async_inv (autoLoadPreview_download w s)"
proof (cases "downloadFile w")
  case (Inl err)
  then show ?thesis
    using assms by (simp add: autoLoadPreview_download_eq inline_async_inv_catch)
next
  case (Inr f)
  define s2 where "s2 = cleanupFileUrl
    (s\<lparr>currentFileName := Some (fileName f), currentMimeType := Some (mimeType f)\<rparr>)"
  define s4 where "s4 = (snd (createObjectURL FileUrl s2))
    \<lparr>currentFileUrl := Some (fst (createObjectURL FileUrl s2))\<rparr>"
  define s5 where "s5 = s4\<lparr>toolbarTitle :=
    (case toolbarTitle s of None \<Rightarrow> None | Some t \<Rightarrow> Some (titleOf (Some (fileName f))))\<rparr>"
  have "inline_async_inv
      (s\<lparr>currentFileName := Some (fileName f), currentMimeType := Some (mimeType f)\<rparr>)"
    using assms by (simp add: inline_async_inv_def)
  then have "inline_async_inv s2" unfolding s2_def by (rule inline_async_inv_cleanup)
  moreover have "currentFileUrl s2 = None" by (simp add: s2_def)
  ultimately have "inline_async_inv s4" unfolding s4_def by (rule inline_async_inv_create)
  then have "inline_async_inv s5" by (simp add: s5_def inline_async_inv_def)
  then have "inline_async_inv
    (case renderFilePreview_inline w f s5 of
       (None, s') \<Rightarrow> s'
     | (Some err, s') \<Rightarrow> autoLoadPreview_catch err s')"
    by (rule inline_async_inv_render)
  then show ?thesis
    using Inr unfolding autoLoadPreview_download_eq s5_def s4_def s2_def by simp
qed

lemma inline_async_inv_destroy:
  assumes "inline_async_inv s"
  shows "inline_async_inv (destroy_inline s)" "liveUrls (urlLog (destroy_inline s)) = []"
proof -
  let ?s1 = "cleanupFileUrl s"
  have c: "inline_async_inv ?s1" using assms by (rule inline_async_inv_cleanup)
  have l: "set (liveUrls (urlLog ?s1)) = set (urlsOf WorkerUrl (pdfWorkerUrl ?s1))"
    using c by (simp add: inline_async_inv_def)
  show "inline_async_inv (destroy_inline s)"
  proof (cases "pdfWorkerUrl ?s1")
    case None
    then show ?thesis using c by (simp add: destroy_inline_def Let_def)
  next
    case (Some u)
    have "atMostOneLive (Revoked u # urlLog ?s1)"
      using c atMostOneLive_Revoked by (simp add: inline_async_inv_def)
    moreover have "set (liveUrls (Revoked u # urlLog ?s1)) = {}"
      using l Some by auto
    ultimately show ?thesis
      using c Some
      by (auto simp: destroy_inline_def Let_def revokeObjectURL_def inline_async_inv_def
          simp del: atMostOneLive.simps liveUrls.simps)
  qed
  show "liveUrls (urlLog (destroy_inline s)) = []"
  proof (cases "pdfWorkerUrl ?s1")
    case None
    then show ?thesis using l by (simp add: destroy_inline_def Let_def)
  next
    case (Some u)
    have "set (liveUrls (Revoked u # urlLog ?s1)) = {}"
      using l Some by auto
    then show ?thesis
      using Some by (simp add: destroy_inline_def Let_def revokeObjectURL_def
          del: liveUrls.simps)
  qed
qed

lemma inline_async_inv_step:
  assumes "inline_async_inv (panel sys)"
  shows "inline_async_inv (panel (inline_async_step sys ev))"
proof (cases ev)
  case (PanelUpdateView c)
  have "inline_async_inv ((panel sys)\<lparr>ctx := c\<rparr>)"
    using assms by (simp add: inline_async_inv_def)
  then show ?thesis
    using PanelUpdateView
    by (cases "zoomWrapper (panel sys)")
       (simp_all add: Let_def inline_async_inv_setInfoMessage)
next
  case (ResumePanel i w)
  show ?thesis
  proof (cases "i < length (inlineTasks sys)")
    case False
    then show ?thesis using assms ResumePanel by simp
  next
    case True
    show ?thesis
    proof (cases "inlineTasks sys ! i")
      case AwaitingCheck
      then show ?thesis
        using assms ResumePanel True
        by (cases "hasPreviewableAttachment (checkRecord w)")
           (simp_all add: inline_async_inv_catch inline_async_inv_setInfoMessage)
    next
      case AwaitingDownload
      then show ?thesis
        using assms ResumePanel True by (simp add: inline_async_inv_download)
    qed
  qed
next
  case (ResourceCallback answer)
  then show ?thesis using assms by (simp add: inline_async_inv_callback)
next
  case PanelZoomOut
  then show ?thesis using assms by (simp add: inline_async_inv_applyZoom)
next
  case PanelZoomIn
  then show ?thesis using assms by (simp add: inline_async_inv_applyZoom)
next
  case PanelZoomReset
  then show ?thesis using assms by (simp add: inline_async_inv_applyZoom)
next
  case PanelDestroy
  then show ?thesis using assms by (simp add: inline_async_inv_destroy)
qed

lemma inline_async_inv_foldl:
  "inline_async_inv (panel sys) \<Longrightarrow>
     inline_async_inv (panel (foldl inline_async_step sys evs))"
  by (induction evs arbitrary: sys) (simp_all add: inline_async_inv_step)

lemma inline_async_inv_run: "inline_async_inv (panel (run_inline_async c evs))"
  unfolding run_inline_async_def
  by (rule inline_async_inv_foldl)
     (simp add: inline_async_inv_def init_async_def applyZoom_inline_def Let_def)

section \<open>Calls that nothing interrupts\<close>

text \<open>
  A call of \<open>updateView\<close> or a click on the preview button whose answers arrive before
  any other event is one of the interleavings: it leaves the control where the methods
  run in one piece leave it.
\<close>

lemma autoLoadPreview_download_try:
  "hasPreviewableAttachment (checkRecord w) = Inr True \<Longrightarrow>
   autoLoadPreview_download w s =
     (case autoLoadPreview_try w s of
        (None, s') \<Rightarrow> s'
      | (Some err, s') \<Rightarrow> autoLoadPreview_catch err s')"
  by (cases "downloadFile w") (simp_all add: autoLoadPreview_download_eq autoLoadPreview_try_eq)

lemma autoLoadPreview_by_stages:
  "autoLoadPreview w s =
     (case zoomWrapper s of
        None \<Rightarrow> s
      | Some zw \<Rightarrow>
          if falsy (entityId (ctx s)) then
            setInfoMessage ''Save the record and upload a file to see the document preview.'' s
          else if falsy (entityLogicalName (ctx s)) \<or> falsy (fileColumnName (ctx s)) then
            setInfoMessage missingConfiguration s
          else
            (case hasPreviewableAttachment (checkRecord w) of
               Inl err \<Rightarrow> autoLoadPreview_catch err s
             | Inr hasPreview \<Rightarrow>
                 if \<not> hasPreview then setInfoMessage noPreviewableFile s
                 else autoLoadPreview_download w s))"
proof (cases "hasPreviewableAttachment (checkRecord w)")
  case (Inl err)
  then show ?thesis
    by (simp add: autoLoadPreview_def autoLoadPreview_try_eq autoLoadPreview_catch_def
        split: option.splits)
next
  case (Inr hasPreview)
  show ?thesis
  proof (cases hasPreview)
    case False
    then show ?thesis
      using Inr by (simp add: autoLoadPreview_def autoLoadPreview_try_eq split: option.splits)
  next
    case True
    then have c: "hasPreviewableAttachment (checkRecord w) = Inr True" using Inr by simp
    obtain e t where et: "autoLoadPreview_try w s = (e, t)"
      by (cases "autoLoadPreview_try w s") auto
    show ?thesis
      using c et autoLoadPreview_download_try[OF c, of s]
      by (cases e) (simp_all add: autoLoadPreview_def autoLoadPreview_catch_def
          split: option.splits)
  qed
qed

lemma resume_without_task:
  "inlineTasks sys = [] \<Longrightarrow> inline_async_step sys (ResumePanel i w) = sys"
  "modalTasks msys = [] \<Longrightarrow> modal_async_step msys (ResumeModal i w) = msys"
  by simp_all

lemma updateView_inline_interleaved:
  assumes "inlineTasks sys = []"
  shows "panel (foldl inline_async_step sys [PanelUpdateView c, ResumePanel 0 w, ResumePanel 0 w]) =
     updateView_inline c w (panel sys)"
proof -
  define s where "s = (panel sys)\<lparr>ctx := c\<rparr>"
  define sys1 where "sys1 = inline_async_step sys (PanelUpdateView c)"
  have ctx: "ctx s = c" by (simp add: s_def)
  have goal: "foldl inline_async_step sys [PanelUpdateView c, ResumePanel 0 w, ResumePanel 0 w] =
      inline_async_step (inline_async_step sys1 (ResumePanel 0 w)) (ResumePanel 0 w)"
    by (simp add: sys1_def)
  have atomic: "updateView_inline c w (panel sys) = autoLoadPreview w s"
    by (simp add: updateView_inline_def s_def)
  show ?thesis
  proof (cases "zoomWrapper s = None \<or> falsy (entityId c) \<or> falsy (entityLogicalName c) \<or>
      falsy (fileColumnName c)")
    case True
    then have "inlineTasks sys1 = []" and p: "panel sys1 = autoLoadPreview w s"
      using assms ctx unfolding sys1_def
      by (auto simp: autoLoadPreview_by_stages Let_def s_def[symmetric] split: option.splits)
    then show ?thesis
      unfolding goal atomic by (simp add: resume_without_task del: inline_async_step.simps)
  next
    case False
    then have t1: "inlineTasks sys1 = [AwaitingCheck]" and p1: "panel sys1 = s"
      using assms ctx unfolding sys1_def
      by (auto simp: Let_def s_def[symmetric] split: option.splits)
    have a: "autoLoadPreview w s =
        (case hasPreviewableAttachment (checkRecord w) of
           Inl err \<Rightarrow> autoLoadPreview_catch err s
         | Inr hasPreview \<Rightarrow>
             if \<not> hasPreview then setInfoMessage noPreviewableFile s
             else autoLoadPreview_download w s)"
      using False ctx by (auto simp: autoLoadPreview_by_stages split: option.splits)
    define sys2 where "sys2 = inline_async_step sys1 (ResumePanel 0 w)"
    show ?thesis
    proof (cases "hasPreviewableAttachment (checkRecord w)")
      case (Inl err)
      then have "inlineTasks sys2 = []" "panel sys2 = autoLoadPreview w s"
        using t1 p1 a unfolding sys2_def by (simp_all add: removeTask_def)
      then show ?thesis
        unfolding goal atomic sys2_def[symmetric]
        by (simp add: resume_without_task del: inline_async_step.simps)
    next
      case (Inr hasPreview)
      show ?thesis
      proof (cases hasPreview)
        case False
        then have "inlineTasks sys2 = []" "panel sys2 = autoLoadPreview w s"
          using Inr t1 p1 a unfolding sys2_def by (simp_all add: removeTask_def)
        then show ?thesis
          unfolding goal atomic sys2_def[symmetric]
          by (simp add: resume_without_task del: inline_async_step.simps)
      next
        case True
        then have "inlineTasks sys2 = [AwaitingDownload]" "panel sys2 = s"
          using Inr t1 p1 unfolding sys2_def by simp_all
        then have "panel (inline_async_step sys2 (ResumePanel 0 w)) = autoLoadPreview_download w s"
          by simp
        then show ?thesis
          unfolding goal atomic sys2_def[symmetric] using a Inr True by simp
      qed
    qed
  qed
qed


lemma onPreviewClick_by_stages:
  "onPreviewClick w s =
     (if previewDisabled s then s
      else if falsy (entityId (ctx s)) \<or> falsy (entityLogicalName (ctx s)) \<or>
              falsy (fileColumnName (ctx s))
      then s\<lparr>alerts := alerts s @ [missingConfiguration]\<rparr>
      else onPreviewClick_resume w s)"
  by (cases "onPreviewClick_try w s")
     (auto simp: onPreviewClick_def onPreviewClick_resume_def onPreviewClick_catch_def
        split: option.splits)

lemma updateView_by_stages:
  "updateView c w s =
     (if falsy (entityId c) \<or> falsy (entityLogicalName c) \<or> falsy (fileColumnName c)
      then s\<lparr>ctx := c, fileLabel := missingConfiguration, previewDisabled := True\<rparr>
      else checkAttachment_resume w
             (s\<lparr>ctx := c, fileLabel := ''Checking attachment...'', previewDisabled := True\<rparr>))"
  by (simp add: updateView_def checkAttachmentAndUpdateUI_def checkAttachment_resume_def)

lemma modal_interleaved:
  assumes "modalTasks sys = []"
  shows "widget (foldl modal_async_step sys [CallUpdateView c, ResumeModal 0 w]) =
      updateView c w (widget sys)"
    and "widget (foldl modal_async_step sys [ClickPreview, ResumeModal 0 w]) =
      onPreviewClick w (widget sys)"
proof -
  define sys1 where "sys1 = modal_async_step sys (CallUpdateView c)"
  define sys2 where "sys2 = modal_async_step sys ClickPreview"
  show "widget (foldl modal_async_step sys [CallUpdateView c, ResumeModal 0 w]) =
      updateView c w (widget sys)"
  proof (cases "falsy (entityId c) \<or> falsy (entityLogicalName c) \<or> falsy (fileColumnName c)")
    case True
    then have "modalTasks sys1 = []" "widget sys1 = updateView c w (widget sys)"
      using assms unfolding sys1_def by (auto simp: updateView_by_stages Let_def)
    then show ?thesis
      using resume_without_task(2)[of sys1 0 w] by (simp add: sys1_def)
  next
    case False
    then have "modalTasks sys1 = [AwaitingAttachment]"
      "checkAttachment_resume w (widget sys1) = updateView c w (widget sys)"
      using assms unfolding sys1_def by (auto simp: updateView_by_stages Let_def)
    then have "widget (modal_async_step sys1 (ResumeModal 0 w)) = updateView c w (widget sys)"
      by simp
    then show ?thesis by (simp add: sys1_def)
  qed
  show "widget (foldl modal_async_step sys [ClickPreview, ResumeModal 0 w]) =
      onPreviewClick w (widget sys)"
  proof (cases "previewDisabled (widget sys) \<or> falsy (entityId (ctx (widget sys))) \<or>
      falsy (entityLogicalName (ctx (widget sys))) \<or> falsy (fileColumnName (ctx (widget sys)))")
    case True
    then have "modalTasks sys2 = []" "widget sys2 = onPreviewClick w (widget sys)"
      using assms unfolding sys2_def by (auto simp: onPreviewClick_by_stages Let_def)
    then show ?thesis
      using resume_without_task(2)[of sys2 0 w] by (simp add: sys2_def)
  next
    case False
    then have "modalTasks sys2 = [AwaitingFile]"
      "onPreviewClick_resume w (widget sys2) = onPreviewClick w (widget sys)"
      using assms unfolding sys2_def by (auto simp: onPreviewClick_by_stages Let_def)
    then have "widget (modal_async_step sys2 (ResumeModal 0 w)) = onPreviewClick w (widget sys)"
      by simp
    then show ?thesis by (simp add: sys2_def)
  qed
qed

section \<open>The lifecycle of object URLs\<close>

text \<open>
  Claim C1, as stated: exactly one object URL of the control is live after any sequence
  of operations. In the inline control two are live once a file is shown, the worker's
  and the file's; after \<open>destroy\<close>, and before the first preview, none is.
\<close>

theorem C1_counterexample:
  "length (liveUrls (urlLog (panel (run_inline_async exampleContext
      [ResourceCallback (Some (Inr ''js'')), PanelUpdateView exampleContext,
       ResumePanel 0 pdfWorld, ResumePanel 0 pdfWorld])))) = 2 \<and>
   length (liveUrls (urlLog (panel (run_inline_async exampleContext
      [ResourceCallback (Some (Inr ''js'')), PanelUpdateView exampleContext,
       ResumePanel 0 pdfWorld, ResumePanel 0 pdfWorld, PanelDestroy])))) = 0 \<and>
   length (liveUrls (urlLog (panel (run_inline_async exampleContext [])))) = 0 \<and>
   length (liveUrls (urlLog (widget (run_modal_async exampleContext [])))) = 0"
  by code_simp

text \<open>
  In the modal control the URL of the file is revoked as soon as it is created:
  \<open>openModal\<close> starts with \<open>destroyModal\<close>, which calls \<open>cleanupFileUrl\<close>. No URL is
  live while the modal shows the file.
\<close>

lemma modal_preview_url_revoked_at_once:
  "urlLog (widget (run_modal_async exampleContext
      [CallUpdateView exampleContext, ResumeModal 0 pdfWorld,
       ClickPreview, ResumeModal 0 pdfWorld])) =
     [Revoked 0, Created FileUrl 0] \<and>
   currentFileUrl (widget (run_modal_async exampleContext
      [CallUpdateView exampleContext, ResumeModal 0 pdfWorld,
       ClickPreview, ResumeModal 0 pdfWorld])) = None \<and>
   modal (widget (run_modal_async exampleContext
      [CallUpdateView exampleContext, ResumeModal 0 pdfWorld,
       ClickPreview, ResumeModal 0 pdfWorld])) \<noteq> None"
  by code_simp

text \<open>
  \<open>destroy\<close> cancels no pending call. A load of the inline control that was waiting
  for its download when \<open>destroy\<close> ran goes on afterwards and creates the URL of its
  file, which no later step of the control revokes; a worker resource that arrives
  after \<open>destroy\<close> leaves the worker's URL live in the same way.
\<close>

lemma file_url_created_after_destroy:
  "urlLog (panel (run_inline_async exampleContext
      [ResourceCallback (Some (Inr ''js'')), PanelUpdateView exampleContext, PanelDestroy,
       ResumePanel 0 pdfWorld, ResumePanel 0 pdfWorld])) =
     [Created FileUrl 1, Revoked 0, Created WorkerUrl 0] \<and>
   liveUrls (urlLog (panel (run_inline_async exampleContext
      [ResourceCallback (Some (Inr ''js'')), PanelUpdateView exampleContext, PanelDestroy,
       ResumePanel 0 pdfWorld, ResumePanel 0 pdfWorld]))) = [(FileUrl, 1)] \<and>
   inlineTasks (run_inline_async exampleContext
      [ResourceCallback (Some (Inr ''js'')), PanelUpdateView exampleContext, PanelDestroy,
       ResumePanel 0 pdfWorld, ResumePanel 0 pdfWorld]) = []"
  by code_simp

lemma worker_url_created_after_destroy:
  "liveUrls (urlLog (panel (run_inline_async exampleContext
      [PanelDestroy, ResourceCallback (Some (Inr ''js''))]))) = [(WorkerUrl, 0)]"
  by code_simp

text \<open>
  Claim C1, amended. Whatever the host and the user do and in whatever order the awaited
  answers arrive, at every moment at most one object URL created for a previewed file
  is live, and in the inline control at most one worker URL beside it: a file's URL is
  revoked before the next one is created. The live URLs are the ones held in
  \<open>currentFileUrl\<close> and \<open>pdfWorkerUrl\<close>, and at the moment \<open>destroy\<close> returns none is
  live.
\<close>

theorem C1_at_most_one_file_url:
  "atMostOneLive (urlLog (widget (run_modal_async c evs))) \<and>
   liveUrls (urlLog (widget (run_modal_async c evs))) =
     urlsOf FileUrl (currentFileUrl (widget (run_modal_async c evs))) \<and>
   liveUrls (urlLog (destroy (widget (run_modal_async c evs)))) = [] \<and>
   atMostOneLive (urlLog (panel (run_inline_async c ievs))) \<and>
   set (liveUrls (urlLog (panel (run_inline_async c ievs)))) =
     set (urlsOf FileUrl (currentFileUrl (panel (run_inline_async c ievs))) @
          urlsOf WorkerUrl (pdfWorkerUrl (panel (run_inline_async c ievs)))) \<and>
   liveUrls (urlLog (destroy_inline (panel (run_inline_async c ievs)))) = []"
proof -
  have m: "modal_url_inv (widget (run_modal_async c evs))" by (rule modal_url_inv_async_run)
  have m1: "atMostOneLive (urlLog (widget (run_modal_async c evs)))"
    and m2: "liveUrls (urlLog (widget (run_modal_async c evs))) =
      urlsOf FileUrl (currentFileUrl (widget (run_modal_async c evs)))"
    using m by (simp_all add: modal_url_inv_def)
  have m3: "liveUrls (urlLog (destroy (widget (run_modal_async c evs)))) = []"
    using modal_url_inv_cleanup[OF m] modal_url_inv_destroyModal
    unfolding destroy_def by blast
  have i: "inline_async_inv (panel (run_inline_async c ievs))"
    by (rule inline_async_inv_run)
  have i1: "atMostOneLive (urlLog (panel (run_inline_async c ievs)))"
    and i2: "set (liveUrls (urlLog (panel (run_inline_async c ievs)))) =
      set (urlsOf FileUrl (currentFileUrl (panel (run_inline_async c ievs))) @
           urlsOf WorkerUrl (pdfWorkerUrl (panel (run_inline_async c ievs))))"
    using i by (simp_all add: inline_async_inv_def)
  have i3: "liveUrls (urlLog (destroy_inline (panel (run_inline_async c ievs)))) = []"
    using inline_async_inv_destroy(2)[OF i] .
  show ?thesis
    using m1 m2 m3 i1 i2 i3 by (intro conjI)
qed

section \<open>The zoom factor\<close>

text \<open>Where there is a zoom wrapper, \<open>applyZoom\<close> stores the clamped value.\<close>

lemma applyZoom_level:
  "modal s \<noteq> None \<Longrightarrow> zoomLevel (applyZoom z s) = min (max z (1 / 2)) 3"
  "zoomWrapper t \<noteq> None \<Longrightarrow> zoomLevel (applyZoom_inline z t) = min (max z (1 / 2)) 3"
  by (auto simp: applyZoom_def applyZoom_inline_def Let_def)

text \<open>
  Claim C2. JavaScript numbers are taken as reals: \<open>Math.min\<close> and \<open>Math.max\<close> select
  one of their arguments and round nothing, and the zoom level starts at 1, so no call
  passes a value that is not a number. After any sequence of events the stored zoom
  level lies in the interval from 0.5 to 3; so it does after \<open>applyZoom z\<close> in any
  reachable state, for every \<open>z\<close>, and the scale on the zoom wrapper is then the stored
  level (in the modal control, when a modal is open).
\<close>

theorem C2_zoom_clamped:
  "1 / 2 \<le> zoomLevel (run_modal c evs) \<and> zoomLevel (run_modal c evs) \<le> 3 \<and>
   1 / 2 \<le> zoomLevel (applyZoom z (run_modal c evs)) \<and>
   zoomLevel (applyZoom z (run_modal c evs)) \<le> 3 \<and>
   appliedScale (applyZoom z (run_modal c evs)) =
     (if modal (run_modal c evs) = None then None
      else Some (zoomLevel (applyZoom z (run_modal c evs)))) \<and>
   1 / 2 \<le> zoomLevel (run_inline c w ievs) \<and> zoomLevel (run_inline c w ievs) \<le> 3 \<and>
   1 / 2 \<le> zoomLevel (applyZoom_inline z (run_inline c w ievs)) \<and>
   zoomLevel (applyZoom_inline z (run_inline c w ievs)) \<le> 3 \<and>
   appliedScale_inline (applyZoom_inline z (run_inline c w ievs)) =
     Some (zoomLevel (applyZoom_inline z (run_inline c w ievs)))"
proof -
  have m: "modal_zoom_inv (run_modal c evs)" by (rule modal_inv_run)
  have i: "inline_zoom_inv (run_inline c w ievs)"
    using inline_inv_run[of c w ievs] by (simp add: inline_inv_def)
  show ?thesis
    using m modal_zoom_inv_applyZoom[OF m, of z] i inline_zoom_inv_applyZoom[OF i, of z]
    by (simp add: modal_zoom_inv_def inline_zoom_inv_def)
qed

section \<open>The pages of a PDF\<close>

lemma renderPages_all_ok:
  assumes "\<forall>p. k \<le> p \<and> p \<le> n \<longrightarrow> (\<exists>pg. getPage pdf p = Inr pg \<and> renderError pg = None)"
  shows "renderPages pdf k n cs =
           (None, cs @ map (\<lambda>p. PageContainer (Canvas [p])) [k..<Suc n])"
  using assms
proof (induction pdf k n cs rule: renderPages.induct)
  case (1 pdf pageNum n cs)
  show ?case
  proof (cases "pageNum \<le> n")
    case False
    then show ?thesis by (simp add: renderPages.simps[of pdf pageNum])
  next
    case True
    then obtain pg where pg: "getPage pdf pageNum = Inr pg" "renderError pg = None"
      using "1.prems" by auto
    have "renderPages pdf (Suc pageNum) n (cs @ [PageContainer (Canvas [pageNum])]) =
        (None, (cs @ [PageContainer (Canvas [pageNum])]) @
           map (\<lambda>p. PageContainer (Canvas [p])) [Suc pageNum..<Suc n])"
      using "1.IH"[OF True pg] "1.prems" by simp
    moreover have "[pageNum..<Suc n] = pageNum # [Suc pageNum..<Suc n]"
      using True by (simp add: upt_conv_Cons)
    ultimately show ?thesis
      using True pg by (simp add: renderPages.simps[of pdf pageNum])
  qed
qed

lemma shownChildren_setChildren:
  "modal s \<noteq> None \<Longrightarrow> shownChildren (setChildren cs s) = cs"
  by (auto simp: shownChildren_def setChildren_def)

lemma shownChildren_inline_setChildren:
  "zoomWrapper s \<noteq> None \<Longrightarrow> shownChildren_inline (setChildren_inline cs s) = cs"
  by (auto simp: shownChildren_inline_def setChildren_inline_def)

text \<open>
  Whatever the document, the loop can only end without an error after it has appended
  the containers of all pages from the current one on, in order; so the PDF block shows
  either every page once or the one message of its \<open>catch\<close>.
\<close>

lemma renderPages_completed:
  "renderPages pdf k n cs = (None, cs') \<Longrightarrow>
     cs' = cs @ map (\<lambda>p. PageContainer (Canvas [p])) [k..<Suc n]"
proof (induction pdf k n cs rule: renderPages.induct)
  case (1 pdf pageNum n cs)
  show ?case
  proof (cases "pageNum \<le> n")
    case False
    then show ?thesis using "1.prems" by (simp add: renderPages.simps[of pdf pageNum])
  next
    case True
    then obtain pg where pg: "getPage pdf pageNum = Inr pg" "renderError pg = None"
      using "1.prems"
      by (auto simp: renderPages.simps[of pdf pageNum] split: sum.splits option.splits)
    then have "renderPages pdf (Suc pageNum) n (cs @ [PageContainer (Canvas [pageNum])]) =
        (None, cs')"
      using True "1.prems" by (simp add: renderPages.simps[of pdf pageNum])
    then have "cs' = (cs @ [PageContainer (Canvas [pageNum])]) @
        map (\<lambda>p. PageContainer (Canvas [p])) [Suc pageNum..<Suc n]"
      using "1.IH"[OF True pg] by simp
    moreover have "[pageNum..<Suc n] = pageNum # [Suc pageNum..<Suc n]"
      using True by (simp add: upt_conv_Cons)
    ultimately show ?thesis by simp
  qed
qed

lemma pdfBlock_pages_or_message:
  "pdfDocument w = Inr pdf \<Longrightarrow>
     pdfBlock w = map (\<lambda>p. PageContainer (Canvas [p])) [1..<Suc (numPages pdf)] \<or>
     pdfBlock w = [InfoBlock couldNotRenderPdf]"
proof -
  assume d: "pdfDocument w = Inr pdf"
  obtain r cs where rc: "renderPages pdf 1 (numPages pdf) [] = (r, cs)"
    by (cases "renderPages pdf 1 (numPages pdf) []") auto
  show ?thesis
  proof (cases r)
    case None
    then have "cs = map (\<lambda>p. PageContainer (Canvas [p])) [1..<Suc (numPages pdf)]"
      using rc renderPages_completed[of pdf 1 "numPages pdf" "[]" cs] by simp
    then show ?thesis using d rc None by (simp add: pdfBlock_def)
  next
    case (Some err)
    then show ?thesis using d rc by (simp add: pdfBlock_def)
  qed
qed

text \<open>
  Claim C8. A document decodes successfully when \<open>getDocument\<close> resolves and, for each
  page number from 1 to \<open>numPages\<close>, \<open>getPage\<close> and the page's \<open>render\<close> resolve.
  The PDF block then leaves one page container per page in the wrapper, in ascending
  order of the page numbers, each with a canvas of its own on which exactly that page
  was drawn once; so in both controls, and no error leaves \<open>renderFilePreview\<close>.
\<close>

theorem C8_pdf_pages_in_order:
  assumes "pdfDocument w = Inr pdf"
    and "\<forall>p. 1 \<le> p \<and> p \<le> numPages pdf \<longrightarrow>
           (\<exists>pg. getPage pdf p = Inr pg \<and> renderError pg = None)"
    and "renderBranch file = PdfBranch"
    and "modal s \<noteq> None"
    and "zoomWrapper t \<noteq> None"
  shows "pdfBlock w = map (\<lambda>p. PageContainer (Canvas [p])) [1..<Suc (numPages pdf)] \<and>
    fst (renderFilePreview w file s) = None \<and>
    shownChildren (snd (renderFilePreview w file s)) =
      map (\<lambda>p. PageContainer (Canvas [p])) [1..<Suc (numPages pdf)] \<and>
    fst (renderFilePreview_inline w file t) = None \<and>
    shownChildren_inline (snd (renderFilePreview_inline w file t)) =
      map (\<lambda>p. PageContainer (Canvas [p])) [1..<Suc (numPages pdf)]"
proof -
  have pages: "renderPages pdf 1 (numPages pdf) [] =
      (None, map (\<lambda>p. PageContainer (Canvas [p])) [1..<Suc (numPages pdf)])"
    using renderPages_all_ok[of 1 "numPages pdf" pdf "[]"] assms(2) by simp
  have block: "pdfBlock w = map (\<lambda>p. PageContainer (Canvas [p])) [1..<Suc (numPages pdf)]"
    using assms(1) pages by (simp add: pdfBlock_def)
  have m: "renderFilePreview w file s = (None, setChildren (pdfBlock w) s)"
    using assms(3,4) by (auto simp: renderFilePreview_def)
  have zw: "zoomWrapper (snd (ensurePdfWorkerUrl w t)) \<noteq> None"
    using assms(5)
    by (auto simp: ensurePdfWorkerUrl_def createObjectURL_def Let_def
        split: option.splits sum.splits)
  have i: "renderFilePreview_inline w file t =
      (None, setChildren_inline (pdfBlock w) (snd (ensurePdfWorkerUrl w t)))"
    using assms(3,5) by (auto simp: renderFilePreview_inline_def split_beta)
  show ?thesis
    using block m i assms(4) zw
    by (simp add: shownChildren_setChildren shownChildren_inline_setChildren)
qed

theorem C8_witness:
  "pdfDocument pdfWorld = Inr examplePdf \<and>
   numPages examplePdf = 3 \<and>
   pdfBlock pdfWorld =
     [PageContainer (Canvas [1]), PageContainer (Canvas [2]), PageContainer (Canvas [3])] \<and>
   shownChildren
     (snd (renderFilePreview pdfWorld
        \<lparr>blob = [], fileName = ''Report.PDF'', mimeType = ''application/pdf''\<rparr>
        (openModal (init exampleContext)))) =
     [PageContainer (Canvas [1]), PageContainer (Canvas [2]), PageContainer (Canvas [3])] \<and>
   shownChildren_inline
     (snd (renderFilePreview_inline pdfWorld
        \<lparr>blob = [], fileName = ''Report.PDF'', mimeType = ''application/pdf''\<rparr>
        (init_inline exampleContext pdfWorld))) =
     [PageContainer (Canvas [1]), PageContainer (Canvas [2]), PageContainer (Canvas [3])]"
proof -
  have h1: "pdfDocument pdfWorld = Inr examplePdf"
    by (simp add: pdfWorld_def exampleWorld_def)
  have h2: "\<forall>p. 1 \<le> p \<and> p \<le> numPages examplePdf \<longrightarrow>
      (\<exists>pg. getPage examplePdf p = Inr pg \<and> renderError pg = None)"
    by (simp add: examplePdf_def)
  have h3: "renderBranch \<lparr>blob = [], fileName = ''Report.PDF'', mimeType = ''application/pdf''\<rparr>
      = PdfBranch"
    by code_simp
  have h4: "modal (openModal (init exampleContext)) \<noteq> None" by code_simp
  have h5: "zoomWrapper (init_inline exampleContext pdfWorld) \<noteq> None" by code_simp
  have n: "numPages examplePdf = 3" by (simp add: examplePdf_def)
  have u: "map (\<lambda>p. PageContainer (Canvas [p])) [1..<Suc (numPages examplePdf)] =
      [PageContainer (Canvas [1]), PageContainer (Canvas [2]), PageContainer (Canvas [3])]"
    by code_simp
  show ?thesis
    using h1 n C8_pdf_pages_in_order[OF h1 h2 h3 h4 h5, unfolded u] by simp
qed

section \<open>Records without a previewable file\<close>

lemma exampleContext_configured:
  "\<not> falsy (entityId exampleContext)"
  "\<not> falsy (entityLogicalName exampleContext)"
  "\<not> falsy (fileColumnName exampleContext)"
  by (simp_all add: exampleContext_def falsy_def)

lemma no_preview_modal:
  assumes "hasPreviewableAttachment (checkRecord w) = Inr False"
  shows "previewDisabled (updateView c w s)"
    and "onPreviewClick w' (updateView c w s) = updateView c w s"
    and "\<not> falsy (entityId c) \<Longrightarrow> \<not> falsy (entityLogicalName c) \<Longrightarrow>
         \<not> falsy (fileColumnName c) \<Longrightarrow>
         updateView c w s = s\<lparr>ctx := c, fileLabel := noPreviewableFile, previewDisabled := True\<rparr>"
proof -
  show d: "previewDisabled (updateView c w s)"
    using assms by (simp add: updateView_def checkAttachmentAndUpdateUI_def)
  show "onPreviewClick w' (updateView c w s) = updateView c w s"
    using d by (simp add: onPreviewClick_def)
  show "\<not> falsy (entityId c) \<Longrightarrow> \<not> falsy (entityLogicalName c) \<Longrightarrow>
         \<not> falsy (fileColumnName c) \<Longrightarrow>
         updateView c w s = s\<lparr>ctx := c, fileLabel := noPreviewableFile, previewDisabled := True\<rparr>"
    using assms by (simp add: updateView_def checkAttachmentAndUpdateUI_def)
qed

lemma autoLoadPreview_frame_no_preview:
  assumes "hasPreviewableAttachment (checkRecord w) = Inr False"
  shows "\<exists>msg. autoLoadPreview w t = t \<or> autoLoadPreview w t = setInfoMessage msg t"
  using assms
  by (cases "zoomWrapper t") (auto simp: autoLoadPreview_def autoLoadPreview_try_def)

lemma no_preview_inline:
  assumes "hasPreviewableAttachment (checkRecord w) = Inr False"
  shows "autoLoadPreview_try w t = (None, setInfoMessage noPreviewableFile t)"
    and "urlLog (updateView_inline c w t) = urlLog t"
    and "currentFileUrl (updateView_inline c w t) = currentFileUrl t"
    and "currentFileName (updateView_inline c w t) = currentFileName t"
    and "\<not> falsy (entityId c) \<Longrightarrow> \<not> falsy (entityLogicalName c) \<Longrightarrow>
         \<not> falsy (fileColumnName c) \<Longrightarrow>
         updateView_inline c w t = setInfoMessage noPreviewableFile (t\<lparr>ctx := c\<rparr>)"
proof -
  show t: "autoLoadPreview_try w t = (None, setInfoMessage noPreviewableFile t)" for t
    using assms by (simp add: autoLoadPreview_try_def)
  have n: "currentFileName (setInfoMessage msg u) = currentFileName u" for msg u
    by (simp add: setInfoMessage_def split: option.splits)
  obtain msg where "autoLoadPreview w (t\<lparr>ctx := c\<rparr>) = t\<lparr>ctx := c\<rparr> \<or>
      autoLoadPreview w (t\<lparr>ctx := c\<rparr>) = setInfoMessage msg (t\<lparr>ctx := c\<rparr>)"
    using autoLoadPreview_frame_no_preview[OF assms] by blast
  then show "urlLog (updateView_inline c w t) = urlLog t"
    and "currentFileUrl (updateView_inline c w t) = currentFileUrl t"
    and "currentFileName (updateView_inline c w t) = currentFileName t"
    by (auto simp: updateView_inline_def n)
  show "\<not> falsy (entityId c) \<Longrightarrow> \<not> falsy (entityLogicalName c) \<Longrightarrow>
         \<not> falsy (fileColumnName c) \<Longrightarrow>
         updateView_inline c w t = setInfoMessage noPreviewableFile (t\<lparr>ctx := c\<rparr>)"
    by (cases "zoomWrapper t")
       (simp_all add: updateView_inline_def autoLoadPreview_def t setInfoMessage_def)
qed

text \<open>
  Claim C5. When the file name of the record is \<open>base.ext\<close>, with no dot in \<open>ext\<close>, and
  the lowered \<open>ext\<close> is not a supported extension, the attachment check returns false.
  The modal control then disables the preview button, and a click on it changes nothing;
  the inline control leaves its \<open>try\<close> block after the message, before any download:
  no object URL is created and the current file stays what it was. In a configured
  control the message is \<open>No previewable file in Attachment.\<close>
\<close>

theorem C5_unsupported_extension_no_preview:
  assumes "checkRecord w = Inr r"
    and "fileNameColumn r = Some (base @ ''.'' @ ext)"
    and "CHR ''.'' \<notin> set ext"
    and "toLowerCase ext \<notin> set supportedExtensions"
  shows "hasPreviewableAttachment (checkRecord w) = Inr False \<and>
    previewDisabled (updateView c w s) \<and>
    onPreviewClick w' (updateView c w s) = updateView c w s \<and>
    autoLoadPreview_try w t = (None, setInfoMessage noPreviewableFile t) \<and>
    urlLog (updateView_inline c w t) = urlLog t \<and>
    currentFileUrl (updateView_inline c w t) = currentFileUrl t \<and>
    currentFileName (updateView_inline c w t) = currentFileName t \<and>
    (\<not> falsy (entityId c) \<and> \<not> falsy (entityLogicalName c) \<and> \<not> falsy (fileColumnName c) \<longrightarrow>
       fileLabel (updateView c w s) = noPreviewableFile \<and>
       updateView_inline c w t = setInfoMessage noPreviewableFile (t\<lparr>ctx := c\<rparr>))"
proof -
  have f: "hasPreviewableAttachment (checkRecord w) = Inr False"
    using assms(1) hasPreviewable_unsupported[OF assms(2-4)] by simp
  show ?thesis
    using f no_preview_modal[OF f] no_preview_inline[OF f]
    by simp
qed

theorem C5_witness:
  "checkRecord txtWorld = Inr \<lparr>fileRef = Some ''guid'', fileNameColumn = Some ''notes.TXT''\<rparr> \<and>
   toLowerCase ''TXT'' \<notin> set supportedExtensions \<and>
   hasPreviewableAttachment (checkRecord txtWorld) = Inr False \<and>
   previewDisabled (updateView exampleContext txtWorld (init exampleContext)) \<and>
   fileLabel (updateView exampleContext txtWorld (init exampleContext)) = noPreviewableFile \<and>
   onPreviewClick pdfWorld (updateView exampleContext txtWorld (init exampleContext)) =
     updateView exampleContext txtWorld (init exampleContext) \<and>
   urlLog (updateView_inline exampleContext txtWorld (init_inline exampleContext txtWorld)) =
     urlLog (init_inline exampleContext txtWorld)"
proof -
  have h1: "checkRecord txtWorld =
      Inr \<lparr>fileRef = Some ''guid'', fileNameColumn = Some ''notes.TXT''\<rparr>"
    by (simp add: txtWorld_def exampleWorld_def)
  have h2: "fileNameColumn \<lparr>fileRef = Some ''guid'', fileNameColumn = Some ''notes.TXT''\<rparr> =
      Some (''notes'' @ ''.'' @ ''TXT'')"
    by simp
  have h3: "CHR ''.'' \<notin> set ''TXT''" by simp
  have h4: "toLowerCase ''TXT'' \<notin> set supportedExtensions" by code_simp
  show ?thesis
    using h1 h4 exampleContext_configured
      C5_unsupported_extension_no_preview[OF h1 h2 h3 h4,
        where c = exampleContext and s = "init exampleContext" and w' = pdfWorld
          and t = "init_inline exampleContext txtWorld"]
    by simp
qed

text \<open>
  Claim C3, as stated: a record with a supported extension and no file content gets a
  download-fallback message. For the record named \<open>report.pdf\<close> with an empty file
  column both controls show \<open>No previewable file in Attachment.\<close>, which is neither of
  the two messages that point to the Download button; no alert is raised and no modal
  is opened.
\<close>

theorem C3_counterexample:
  "toLowerCase (substring ''report.pdf'' (lastIndexOf ''report.pdf'' CHR ''.'' + 1))
       \<in> set supportedExtensions \<and>
   fileRef \<lparr>fileRef = None, fileNameColumn = Some ''report.pdf''\<rparr> = None \<and>
   checkRecord absentFileWorld = Inr \<lparr>fileRef = None, fileNameColumn = Some ''report.pdf''\<rparr> \<and>
   fileLabel (updateView exampleContext absentFileWorld (init exampleContext)) =
     ''No previewable file in Attachment.'' \<and>
   alerts (updateView exampleContext absentFileWorld (init exampleContext)) = [] \<and>
   modal (updateView exampleContext absentFileWorld (init exampleContext)) = None \<and>
   shownChildren_inline
     (updateView_inline exampleContext absentFileWorld
        (init_inline exampleContext absentFileWorld)) =
     [InfoBlock ''No previewable file in Attachment.''] \<and>
   ''No previewable file in Attachment.'' \<notin> {couldNotRenderPdf, couldNotRenderImage}"
  by code_simp

text \<open>
  Claim C3, amended. When the file column of the record is empty, whatever the file
  name, the attachment check returns false and no preview is attempted: the modal
  control disables the preview button, the inline control stops after its message, and
  in a configured control the message is \<open>No previewable file in Attachment.\<close>, not a
  download-fallback message.
\<close>

theorem C3_absent_file_no_preview:
  assumes "checkRecord w = Inr r"
    and "falsy (fileRef r)"
  shows "hasPreviewableAttachment (checkRecord w) = Inr False \<and>
    previewDisabled (updateView c w s) \<and>
    onPreviewClick w' (updateView c w s) = updateView c w s \<and>
    autoLoadPreview_try w t = (None, setInfoMessage noPreviewableFile t) \<and>
    (\<not> falsy (entityId c) \<and> \<not> falsy (entityLogicalName c) \<and> \<not> falsy (fileColumnName c) \<longrightarrow>
       fileLabel (updateView c w s) = noPreviewableFile \<and>
       updateView_inline c w t = setInfoMessage noPreviewableFile (t\<lparr>ctx := c\<rparr>)) \<and>
    noPreviewableFile \<notin> {couldNotRenderPdf, couldNotRenderImage}"
proof -
  have f: "hasPreviewableAttachment (checkRecord w) = Inr False"
    using assms by (simp add: hasPreviewableAttachment_def)
  have n: "noPreviewableFile \<notin> {couldNotRenderPdf, couldNotRenderImage}"
    by (simp add: noPreviewableFile_def couldNotRenderPdf_def couldNotRenderImage_def)
  show ?thesis
    using f n no_preview_modal[OF f] no_preview_inline[OF f]
    by simp
qed

theorem C3_witness:
  "checkRecord absentFileWorld =
     Inr \<lparr>fileRef = None, fileNameColumn = Some ''report.pdf''\<rparr> \<and>
   falsy (fileRef \<lparr>fileRef = None, fileNameColumn = Some ''report.pdf''\<rparr>) \<and>
   hasPreviewableAttachment (checkRecord absentFileWorld) = Inr False \<and>
   previewDisabled (updateView exampleContext absentFileWorld (init exampleContext)) \<and>
   fileLabel (updateView exampleContext absentFileWorld (init exampleContext)) =
     noPreviewableFile \<and>
   updateView_inline exampleContext absentFileWorld
       (init_inline exampleContext absentFileWorld) =
     setInfoMessage noPreviewableFile
       ((init_inline exampleContext absentFileWorld)\<lparr>ctx := exampleContext\<rparr>)"
proof -
  have h1: "checkRecord absentFileWorld =
      Inr \<lparr>fileRef = None, fileNameColumn = Some ''report.pdf''\<rparr>"
    by (simp add: absentFileWorld_def exampleWorld_def)
  have h2: "falsy (fileRef \<lparr>fileRef = None, fileNameColumn = Some ''report.pdf''\<rparr>)"
    by (simp add: falsy_def)
  show ?thesis
    using h1 h2 exampleContext_configured
      C3_absent_file_no_preview[OF h1 h2,
        where c = exampleContext and s = "init exampleContext" and w' = pdfWorld
          and t = "init_inline exampleContext absentFileWorld"]
    by simp
qed

section \<open>Errors of the preview action\<close>

lemma renderFilePreview_error:
  "modal s \<noteq> None \<Longrightarrow>
     fst (renderFilePreview w file s) =
       (if renderBranch file = DocxBranch then docxRender w else None)"
  by (cases "renderBranch file"; cases "docxRender w") (auto simp: renderFilePreview_def)

lemma renderFilePreview_inline_error:
  "zoomWrapper s \<noteq> None \<Longrightarrow>
     fst (renderFilePreview_inline w file s) =
       (if renderBranch file = DocxBranch then docxRender w else None)"
  by (cases "renderBranch file"; cases "docxRender w")
     (auto simp: renderFilePreview_inline_def split_beta)







text \<open>
  The PDF block and the image block keep their failures: a document that does not load,
  a page that does not render and an image that cannot be read leave the message of
  the block in the wrapper, and no error leaves \<open>renderFilePreview\<close>.
\<close>

lemma pdf_failure_handled_in_block:
  "pdfDocument w = Inl err \<Longrightarrow> pdfBlock w = [InfoBlock couldNotRenderPdf]"
  "pdfDocument w = Inr pdf \<Longrightarrow> fst (renderPages pdf 1 (numPages pdf) []) = Some err \<Longrightarrow>
     pdfBlock w = [InfoBlock couldNotRenderPdf]"
  by (cases "renderPages pdf 1 (numPages pdf) []"; simp add: pdfBlock_def)+

lemma image_failure_handled_in_block:
  "imageReader w = None \<Longrightarrow> imageBlock w = [InfoBlock couldNotRenderImage]"
  by (simp add: imageBlock_def)

lemma only_docx_errors_leave_renderFilePreview:
  "modal s \<noteq> None \<Longrightarrow> renderBranch file \<noteq> DocxBranch \<Longrightarrow>
     fst (renderFilePreview w file s) = None"
  "zoomWrapper t \<noteq> None \<Longrightarrow> renderBranch file \<noteq> DocxBranch \<Longrightarrow>
     fst (renderFilePreview_inline w file t) = None"
  by (simp_all add: renderFilePreview_error renderFilePreview_inline_error)

text \<open>
  Claim C4 at a Word document that docx-preview rejects. The DOCX block awaits
  \<open>renderAsync\<close> outside any \<open>try\<close>: the error leaves \<open>renderFilePreview\<close>, the word
  container stays empty, and the user gets the generic message of the top-level handler
  instead of an inline message of the block.
\<close>

theorem C4_docx_failure_leaves_renderFilePreview:
  "renderBranch \<lparr>blob = [97, 98, 99], fileName = ''letter.docx'',
      mimeType = ''application/vnd.openxmlformats-officedocument.wordprocessingml.document''\<rparr>
     = DocxBranch \<and>
   fst (onPreviewClick_try docxWorld (updateView exampleContext docxWorld (init exampleContext))) =
     Some (Error ''corrupt archive'' None) \<and>
   shownChildren (run_modal exampleContext
      [UpdateView exampleContext docxWorld, PreviewClick docxWorld]) = [WordContainer False] \<and>
   alerts (run_modal exampleContext
      [UpdateView exampleContext docxWorld, PreviewClick docxWorld]) =
     [''Error loading document preview.''] \<and>
   shownChildren_inline (run_inline exampleContext docxWorld
      [InlineUpdateView exampleContext docxWorld]) =
     [InfoBlock ''Error loading document preview.'']"
  by code_simp

end
